theory Spec2Isabelle
  imports Main "HOL-Library.Word"
begin

unbundle bit_operations_syntax

section \<open>The MMC/SD driver over SPI (hw/drivers/mmc/src/mmc.c)\<close>

subsection \<open>Machine types and constants\<close>

text \<open>
  \<open>uint8_t\<close> and \<open>uint32_t\<close> are words. \<open>size_t\<close> is the 32-bit unsigned integer of
  the driver's targets (32-bit microcontrollers), so that \<open>len + BLOCK_LEN - 1\<close> wraps
  as it does there.
\<close>

type_synonym u8 = "8 word"
type_synonym u32 = "32 word"
type_synonym size_t = "32 word"

text \<open>A region of memory behind a pointer: the byte at each offset from it.\<close>

type_synonym mem = "nat \<Rightarrow> u8"

definition CMD0 :: u8 where "CMD0 = 0"
definition CMD8 :: u8 where "CMD8 = 8"
definition CMD12 :: u8 where "CMD12 = 12"
definition CMD17 :: u8 where "CMD17 = 17"
definition CMD18 :: u8 where "CMD18 = 18"
definition CMD24 :: u8 where "CMD24 = 24"
definition CMD25 :: u8 where "CMD25 = 25"
definition CMD55 :: u8 where "CMD55 = 55"
definition CMD58 :: u8 where "CMD58 = 58"
definition ACMD41 :: u8 where "ACMD41 = 0x80 + 41"

definition HCS :: u32 where "HCS = push_bit 30 1"

definition R_IDLE :: u8 where "R_IDLE = 0x01"
definition R_ERASE_RESET :: u8 where "R_ERASE_RESET = 0x02"
definition R_ILLEGAL_COMMAND :: u8 where "R_ILLEGAL_COMMAND = 0x04"
definition R_CRC_ERROR :: u8 where "R_CRC_ERROR = 0x08"
definition R_ERASE_ERROR :: u8 where "R_ERASE_ERROR = 0x10"
definition R_ADDR_ERROR :: u8 where "R_ADDR_ERROR = 0x20"
definition R_PARAM_ERROR :: u8 where "R_PARAM_ERROR = 0x40"

definition BLOCK_LEN :: size_t where "BLOCK_LEN = 512"

lemmas cmd_defs = CMD0_def CMD8_def CMD12_def CMD17_def CMD18_def CMD24_def CMD25_def
  CMD55_def CMD58_def ACMD41_def

lemmas r1_defs = R_IDLE_def R_ERASE_RESET_def R_ILLEGAL_COMMAND_def R_CRC_ERROR_def
  R_ERASE_ERROR_def R_ADDR_ERROR_def R_PARAM_ERROR_def

subsection \<open>Return codes\<close>

text \<open>
  Modelled from the spec: the \<open>MMC_*\<close> codes of the driver's header \<open>mmc/mmc.h\<close>, which
  is not among the sources, as the error taxonomy of the specification (\<open>Timeout\<close>,
  \<open>CrcError\<close>, \<open>ParamError\<close>, \<open>VoltageMismatch\<close>, \<open>ResponseMismatch\<close>, \<open>CardError\<close>,
  \<open>DeviceNotFound\<close>, \<open>WriteError\<close>). The driver returns an \<open>int\<close>: \<open>MMC_OK\<close> is 0 (a
  status byte is compared with it, and \<open>mmc_init\<close> returns the 0 of \<open>hal_spi_config\<close> on
  success), the other codes are distinct and non-zero, and \<open>mmc_init\<close> hands a non-zero
  code of the SPI layer through unchanged (\<open>HAL_ERROR\<close>).
\<close>

datatype mmc_rc =
    MMC_OK
  | MMC_CARD_ERROR
  | MMC_WRITE_ERROR
  | MMC_TIMEOUT
  | MMC_PARAM_ERROR
  | MMC_CRC_ERROR
  | MMC_DEVICE_ERROR
  | MMC_RESPONSE_ERROR
  | MMC_VOLTAGE_ERROR
  | HAL_ERROR int

subsection \<open>Device handle and hardware state\<close>

datatype spi_data_order = HAL_SPI_MSB_FIRST | HAL_SPI_LSB_FIRST
datatype spi_data_mode = HAL_SPI_MODE0 | HAL_SPI_MODE1 | HAL_SPI_MODE2 | HAL_SPI_MODE3
datatype spi_word_size = HAL_SPI_WORD_SIZE_8BIT | HAL_SPI_WORD_SIZE_9BIT

record hal_spi_settings =
  data_order :: spi_data_order
  data_mode :: spi_data_mode
  baudrate :: nat
  word_size :: spi_word_size

definition mmc_settings :: hal_spi_settings where
  "mmc_settings = \<lparr>data_order = HAL_SPI_MSB_FIRST, data_mode = HAL_SPI_MODE0,
     baudrate = 100, word_size = HAL_SPI_WORD_SIZE_8BIT\<rparr>"

text \<open>\<open>struct mmc_cfg\<close>: the four fields of the source, and no other.\<close>

record mmc_cfg =
  spi_num :: int
  ss_pin :: int
  spi_cfg :: nat
  settings :: "hal_spi_settings option"

text \<open>
  The state the driver works on: its two globals, and the hardware it drives.
  \<^item> \<open>gpio\<close>: the level of each output pin (chip-select is active low: \<open>False\<close> is
    asserted, \<open>True\<close> released);
  \<^item> \<open>mosi\<close>: every byte the driver has put on the bus, oldest first;
  \<^item> \<open>miso\<close>: the byte the card answers in the n-th exchange of the bus;
  \<^item> \<open>os_time\<close>: the tick counter. It is an \<open>os_time_t\<close>, as are the deadlines the
    driver declares (\<open>os_time_t timeout\<close>, lines 191, 344 and 437): the operating
    system's unsigned 32-bit tick type, which wraps to 0 after \<open>0xFFFFFFFF\<close>;
  \<^item> \<open>spi_init_rc\<close>, \<open>spi_config_rc\<close>: what \<open>hal_spi_init\<close> and \<open>hal_spi_config\<close>
    return on this board.
\<close>

type_synonym os_time_t = "32 word"

record hw =
  g_mmc_cfg :: mmc_cfg
  g_block_buf :: mem
  gpio :: "int \<Rightarrow> bool"
  mosi :: "u8 list"
  miso :: "nat \<Rightarrow> u8"
  os_time :: os_time_t
  spi_init_rc :: int
  spi_config_rc :: int

subsection \<open>The hardware abstraction layer\<close>

text \<open>
  Modelled from the spec: the transport adapter and the timer service, which the
  repository declares outside its sources. \<open>transfer_byte(channel, out_byte) -> in_byte\<close>
  sends one byte and returns the byte received in the same exchange; chip-select is a
  pin that is driven high or low; the timer is a tick counter and a blocking sleep,
  which returns when the ticks asked for have passed. The counter has the width of
  \<open>os_time_t\<close>: a sleep that carries it past \<open>0xFFFFFFFF\<close> wraps it, and so does the sum
  of a reading and an interval that the driver computes as a deadline. Nothing else
  moves the counter: an exchange on the bus takes no tick. \<open>OS_TICKS_PER_SEC\<close>, a
  constant of the operating system's configuration, is the parameter \<open>tps\<close> of every
  function that computes a deadline or a sleep from it.
\<close>

definition hal_spi_tx_val :: "u8 \<Rightarrow> hw \<Rightarrow> u8 \<times> hw" where
  "hal_spi_tx_val v s = (miso s (length (mosi s)), s\<lparr>mosi := mosi s @ [v]\<rparr>)"

definition hal_gpio_write :: "int \<Rightarrow> bool \<Rightarrow> hw \<Rightarrow> hw" where
  "hal_gpio_write pin v s = s\<lparr>gpio := (gpio s)(pin := v)\<rparr>"

definition hal_gpio_init_out :: "int \<Rightarrow> bool \<Rightarrow> hw \<Rightarrow> hw" where
  "hal_gpio_init_out pin v s = s\<lparr>gpio := (gpio s)(pin := v)\<rparr>"

definition os_time_get :: "hw \<Rightarrow> os_time_t" where
  "os_time_get s = os_time s"

definition os_time_delay :: "nat \<Rightarrow> hw \<Rightarrow> hw" where
  "os_time_delay ticks s = s\<lparr>os_time := os_time s + of_nat ticks\<rparr>"

subsection \<open>Error classifier\<close>

text \<open>
  \<open>mmc_error_by_status\<close>: the branches of the source in their order; the four branches
  that hold only a TODO fall through to the final \<open>return MMC_CARD_ERROR\<close>.
\<close>

definition mmc_error_by_status :: "u8 \<Rightarrow> mmc_rc" where
  "mmc_error_by_status status =
     (if status = 0 then MMC_OK
      else if status AND R_IDLE \<noteq> 0 then MMC_TIMEOUT
      else if status AND R_ERASE_RESET \<noteq> 0 then MMC_CARD_ERROR
      else if status AND R_ILLEGAL_COMMAND \<noteq> 0 then MMC_CARD_ERROR
      else if status AND R_CRC_ERROR \<noteq> 0 then MMC_CRC_ERROR
      else if status AND R_ERASE_ERROR \<noteq> 0 then MMC_CARD_ERROR
      else if status AND R_ADDR_ERROR \<noteq> 0 then MMC_CARD_ERROR
      else if status AND R_PARAM_ERROR \<noteq> 0 then MMC_PARAM_ERROR
      else MMC_CARD_ERROR)"

definition mmc_cfg_dev :: "u8 \<Rightarrow> hw \<Rightarrow> mmc_cfg option" where
  "mmc_cfg_dev mmc_id s = (if mmc_id \<noteq> 0 then None else Some (g_mmc_cfg s))"

subsection \<open>Command codec\<close>

text \<open>
  The response poll of \<open>send_mmc_cmd\<close>: \<open>for (n = 255; n > 0; n--)\<close>, leaving at the
  first byte whose high bit is clear. The second argument is the local \<open>status\<close>.
\<close>

fun cmd_poll :: "nat \<Rightarrow> u8 \<Rightarrow> hw \<Rightarrow> u8 \<times> hw" where
  "cmd_poll 0 status s = (status, s)"
| "cmd_poll (Suc n) status s =
     (case hal_spi_tx_val 0xff s of
        (st, s1) \<Rightarrow> if st AND 0x80 = 0 then (st, s1) else cmd_poll n st s1)"

text \<open>
  \<open>send_mmc_cmd\<close>, with its recursive call for a command that carries the
  application-command marker \<open>0x80\<close>. The result of that call is dropped.
\<close>

function send_mmc_cmd :: "u8 \<Rightarrow> u32 \<Rightarrow> hw \<Rightarrow> u8 \<times> hw" where
  "send_mmc_cmd cmd payload s =
     (let s0 = (if cmd AND 0x80 \<noteq> 0 then snd (send_mmc_cmd CMD55 0 s) else s);
          s1 = snd (hal_spi_tx_val (0x40 OR (cmd AND NOT 0x80)) s0);
          s2 = snd (hal_spi_tx_val (ucast (drop_bit 24 payload AND 0xff)) s1);
          s3 = snd (hal_spi_tx_val (ucast (drop_bit 16 payload AND 0xff)) s2);
          s4 = snd (hal_spi_tx_val (ucast (drop_bit 8 payload AND 0xff)) s3);
          s5 = snd (hal_spi_tx_val (ucast (payload AND 0xff)) s4);
          crc = (if cmd = CMD0 then 0x95 else if cmd = CMD8 then 0x87 else 0x01);
          s6 = snd (hal_spi_tx_val crc s5)
      in cmd_poll 255 0 s6)"
  by pat_completeness auto
termination
  by (relation "measure (\<lambda>(cmd, payload, s). if cmd AND 0x80 = 0 then 0 else 1)")
     (auto simp: CMD55_def)

declare send_mmc_cmd.simps [simp del]

subsection \<open>Initialisation\<close>

text \<open>The \<open>for (i = 0; i < 74; i++)\<close> loop that clocks the card with the line idle.\<close>

function mmc_init_clocks :: "nat \<Rightarrow> hw \<Rightarrow> hw" where
  "mmc_init_clocks i s =
     (if i < 74 then mmc_init_clocks (Suc i) (snd (hal_spi_tx_val 0xff s)) else s)"
  by pat_completeness auto
termination
  by (relation "measure (\<lambda>(i, s). 74 - i)") auto

declare mmc_init_clocks.simps [simp del]

text \<open>
  The \<open>for (i = 0; i < 4; i++)\<close> loop that reads the four trailing bytes of an R3 or R7
  response into \<open>cmd_resp\<close>.
\<close>

function read_cmd_resp :: "nat \<Rightarrow> u8 list \<Rightarrow> hw \<Rightarrow> u8 list \<times> hw" where
  "read_cmd_resp i cmd_resp s =
     (if i < 4 then
        (case hal_spi_tx_val 0xff s of
           (v, s1) \<Rightarrow> read_cmd_resp (Suc i) (cmd_resp[i := v]) s1)
      else (cmd_resp, s))"
  by pat_completeness auto
termination
  by (relation "measure (\<lambda>(i, r, s). 4 - i)") auto

declare read_cmd_resp.simps [simp del]

text \<open>
  The wait for the card to leave the idle state (lines 290 to 297). \<open>tps\<close> is
  \<open>OS_TICKS_PER_SEC\<close>, a constant of the operating system's configuration. The deadline
  and the reading of the counter are \<open>os_time_t\<close>, compared with the unsigned \<open>>\<close>
  of the source. The loop need not end (with a card that stays idle: a zero delay, or
  the deadline \<open>0xFFFFFFFF\<close>, which no reading exceeds), so its result is an option.
\<close>

partial_function (option) wait_leave_idle :: "nat \<Rightarrow> os_time_t \<Rightarrow> hw \<Rightarrow> (u8 \<times> hw) option" where
  "wait_leave_idle tps timeout s =
     (case send_mmc_cmd ACMD41 HCS s of
        (status, s1) \<Rightarrow>
          if status AND R_IDLE = 0 \<or> os_time_get s1 > timeout then Some (status, s1)
          else wait_leave_idle tps timeout (os_time_delay (tps div 10) s1))"

text \<open>A non-zero code of the SPI layer is returned as it is; 0 is \<open>MMC_OK\<close>.\<close>

definition hal_rc :: "int \<Rightarrow> mmc_rc" where
  "hal_rc rc = (if rc = 0 then MMC_OK else HAL_ERROR rc)"

text \<open>
  \<open>mmc_init\<close>. \<open>hal_spi_set_txrx_cb\<close> and \<open>hal_spi_enable\<close> change nothing this state
  holds. Every \<open>goto out\<close> is the \<open>hal_gpio_write (ss_pin) True\<close> that ends its branch.
  The body of \<open>if (status == 0 && (cmd_resp[0] & (1 << 6)))\<close> is empty in the source.
\<close>

definition mmc_init :: "nat \<Rightarrow> int \<Rightarrow> nat \<Rightarrow> int \<Rightarrow> hw \<Rightarrow> (mmc_rc \<times> hw) option" where
  "mmc_init tps spi_num' spi_cfg' ss_pin' s =
     (let sa = s\<lparr>g_mmc_cfg := \<lparr>spi_num = spi_num', ss_pin = ss_pin', spi_cfg = spi_cfg',
                                settings = Some mmc_settings\<rparr>\<rparr>;
          sb = hal_gpio_init_out ss_pin' True sa
      in if spi_init_rc sb \<noteq> 0 then Some (hal_rc (spi_init_rc sb), sb)
         else if spi_config_rc sb \<noteq> 0 then Some (hal_rc (spi_config_rc sb), sb)
         else
           (let rc = hal_rc (spi_config_rc sb);
                sc = os_time_delay (tps div 100) sb;
                sd = hal_gpio_write ss_pin' False sc;
                se = snd (hal_spi_tx_val 0xff sd);
                sf = mmc_init_clocks 0 se
            in case send_mmc_cmd CMD0 0 sf of
                 (status, s1) \<Rightarrow>
                   if status \<noteq> R_IDLE
                   then Some (mmc_error_by_status status, hal_gpio_write ss_pin' True s1)
                   else
                     (case send_mmc_cmd CMD8 0x1AA s1 of
                        (status8, s2) \<Rightarrow>
                          (case read_cmd_resp 0 [0, 0, 0, 0] s2 of
                             (cmd_resp, s3) \<Rightarrow>
                               if status8 AND R_ILLEGAL_COMMAND \<noteq> 0 then
                                 (case send_mmc_cmd CMD58 0 s3 of
                                    (ocr, s4) \<Rightarrow> Some (rc, hal_gpio_write ss_pin' True s4))
                               else if cmd_resp ! 3 \<noteq> 0xAA
                               then Some (MMC_RESPONSE_ERROR, hal_gpio_write ss_pin' True s3)
                               else if cmd_resp ! 2 \<noteq> 0x01
                               then Some (MMC_VOLTAGE_ERROR, hal_gpio_write ss_pin' True s3)
                               else
                                 (case wait_leave_idle tps (os_time_get s3 + of_nat tps) s3 of
                                    None \<Rightarrow> None
                                  | Some (status41, s4) \<Rightarrow>
                                      if status41 \<noteq> 0
                                      then Some (mmc_error_by_status status41,
                                                 hal_gpio_write ss_pin' True s4)
                                      else
                                        (case send_mmc_cmd CMD58 0 s4 of
                                           (status58, s5) \<Rightarrow>
                                             (case read_cmd_resp 0 cmd_resp s5 of
                                                (ocr_resp, s6) \<Rightarrow>
                                                  Some (rc, hal_gpio_write ss_pin' True s6))))))))"

subsection \<open>Block transfer: read\<close>

text \<open>\<open>memcpy (dst + di, src + si, n)\<close> on two regions that do not overlap.\<close>

definition memcpy :: "mem \<Rightarrow> nat \<Rightarrow> mem \<Rightarrow> nat \<Rightarrow> nat \<Rightarrow> mem" where
  "memcpy dst di src si n = (\<lambda>i. if di \<le> i \<and> i < di + n then src (si + (i - di)) else dst i)"

text \<open>\<open>for (n = 0; n < BLOCK_LEN; n++) g_block_buf[n] = hal_spi_tx_val (0xff)\<close>.\<close>

function read_block_loop :: "nat \<Rightarrow> hw \<Rightarrow> hw" where
  "read_block_loop n s =
     (if n < 512 then
        (case hal_spi_tx_val 0xff s of
           (v, s1) \<Rightarrow> read_block_loop (Suc n) (s1\<lparr>g_block_buf := (g_block_buf s1)(n := v)\<rparr>))
      else s)"
  by pat_completeness auto
termination
  by (relation "measure (\<lambda>(n, s). 512 - n)") auto

declare read_block_loop.simps [simp del]

text \<open>
  The wait for the data start token (lines 377 to 382, and again 472 to 477): a
  \<open>do ... while\<close> with a sleep of \<open>OS_TICKS_PER_SEC / 20\<close> after every \<open>0xFF\<close>, which
  goes on while the counter reads less than the deadline, both as \<open>os_time_t\<close>.
\<close>

partial_function (option) wait_token :: "nat \<Rightarrow> os_time_t \<Rightarrow> hw \<Rightarrow> (u8 \<times> hw) option" where
  "wait_token tps timeout s =
     (case hal_spi_tx_val 0xff s of
        (res, s1) \<Rightarrow>
          if res \<noteq> 0xFF then Some (res, s1)
          else
            (let s2 = os_time_delay (tps div 20) s1
             in if os_time_get s2 < timeout then wait_token tps timeout s2
                else Some (res, s2)))"

text \<open>
  \<open>while (block_count--)\<close> of \<open>mmc_read\<close>: one block into the scratch buffer, two CRC
  bytes read and dropped, then the copy into the caller's buffer.
\<close>

function read_blocks :: "size_t \<Rightarrow> size_t \<Rightarrow> size_t \<Rightarrow> size_t \<Rightarrow> mem \<Rightarrow> hw \<Rightarrow> mem \<times> hw" where
  "read_blocks block_count offset len index buf s =
     (if block_count = 0 then (buf, s)
      else
        (let s1 = read_block_loop 0 s;
             s2 = snd (hal_spi_tx_val 0xff s1);
             s3 = snd (hal_spi_tx_val 0xff s2);
             amount = min (BLOCK_LEN - offset) len;
             buf1 = memcpy buf (unat index) (g_block_buf s3) (unat offset) (unat amount)
         in read_blocks (block_count - 1) 0 (len - amount) (index + amount) buf1 s3))"
  by pat_completeness auto
termination
  by (relation "measure (\<lambda>(block_count, offset, len, index, buf, s). unat block_count)")
     (simp_all add: unat_minus_one unat_gt_0)

declare read_blocks.simps [simp del]

definition mmc_read ::
    "nat \<Rightarrow> u8 \<Rightarrow> u32 \<Rightarrow> mem \<Rightarrow> size_t \<Rightarrow> hw \<Rightarrow> (mmc_rc \<times> mem \<times> hw) option" where
  "mmc_read tps mmc_id addr buf len s =
     (case mmc_cfg_dev mmc_id s of
        None \<Rightarrow> Some (MMC_DEVICE_ERROR, buf, s)
      | Some mmc \<Rightarrow>
          (let block_len = (len + BLOCK_LEN - 1) AND NOT (BLOCK_LEN - 1);
               block_count = block_len div BLOCK_LEN;
               block_addr = addr div BLOCK_LEN;
               offset = addr - block_addr * BLOCK_LEN;
               s0 = hal_gpio_write (ss_pin mmc) False s;
               cmd = (if block_count = 1 then CMD17 else CMD18)
           in case send_mmc_cmd cmd block_addr s0 of
                (res, s1) \<Rightarrow>
                  if res \<noteq> 0
                  then Some (MMC_CARD_ERROR, buf, hal_gpio_write (ss_pin mmc) True s1)
                  else
                    (case wait_token tps (os_time_get s1 + of_nat (tps div 5)) s1 of
                       None \<Rightarrow> None
                     | Some (tok, s2) \<Rightarrow>
                         if tok = 0xFE then
                           (case read_blocks block_count offset len 0 buf s2 of
                              (buf1, s3) \<Rightarrow>
                                (let s4 = (if cmd = CMD18 then snd (send_mmc_cmd CMD12 0 s3)
                                           else s3)
                                 in Some (MMC_OK, buf1, hal_gpio_write (ss_pin mmc) True s4)))
                         else Some (MMC_CARD_ERROR, buf,
                                    hal_gpio_write (ss_pin mmc) True s2))))"

subsection \<open>Block transfer: write\<close>

text \<open>\<open>for (n = 0; n < BLOCK_LEN; n++) hal_spi_tx_val (g_block_buf[n])\<close>.\<close>

function write_block_loop :: "nat \<Rightarrow> hw \<Rightarrow> hw" where
  "write_block_loop n s =
     (if n < 512 then write_block_loop (Suc n) (snd (hal_spi_tx_val (g_block_buf s n) s))
      else s)"
  by pat_completeness auto
termination
  by (relation "measure (\<lambda>(n, s). 512 - n)") auto

declare write_block_loop.simps [simp del]

text \<open>
  The \<open>do ... while (len)\<close> of \<open>mmc_write\<close>. It returns the last data-response token
  read, whether it left by \<open>break\<close> or because \<open>len\<close> reached 0.
\<close>

function write_blocks :: "u8 \<Rightarrow> size_t \<Rightarrow> size_t \<Rightarrow> size_t \<Rightarrow> mem \<Rightarrow> hw \<Rightarrow> u8 \<times> hw" where
  "write_blocks cmd offset len index buf s =
     (let s1 = snd (hal_spi_tx_val (if cmd = CMD24 then 0xFE else 0xFC) s);
          amount = min (BLOCK_LEN - offset) len;
          s2 = s1\<lparr>g_block_buf :=
                  memcpy (g_block_buf s1) (unat offset) buf (unat index) (unat amount)\<rparr>;
          s3 = write_block_loop 0 s2;
          s4 = snd (hal_spi_tx_val 0xff s3);
          s5 = snd (hal_spi_tx_val 0xff s4);
          res = fst (hal_spi_tx_val 0xff s5);
          s6 = snd (hal_spi_tx_val 0xff s5)
      in if res AND 0x1f \<noteq> 0x05 then (res, s6)
         else if len - amount \<noteq> 0
         then write_blocks cmd 0 (len - amount) (index + amount) buf s6
         else (res, s6))"
  by pat_completeness auto
termination
proof (relation "measures [\<lambda>(cmd, offset, len, index, buf, s). unat len,
                          \<lambda>(cmd, offset, len, index, buf, s). if offset = 0 then 0 else 1]",
       goal_cases)
  case 1
  show ?case by (rule wf_measures)
next
  case (2 cmd offset len index buf s s1 amount s2 s3 s4 s5 res s6)
  let ?amount = "min (BLOCK_LEN - offset) len"
  have nz: "len - ?amount \<noteq> 0"
    using 2(2) 2(10) by simp
  have le: "?amount \<le> len" by (rule min.cobounded2)
  have sub: "unat (len - ?amount) = unat len - unat ?amount"
    using le by (rule unat_sub)
  have "unat (len - ?amount) < unat len \<or>
        unat (len - ?amount) = unat len \<and> offset \<noteq> 0"
  proof (cases "?amount = 0")
    case True
    with nz have "len \<noteq> 0" by simp
    with True have "BLOCK_LEN - offset = 0" unfolding min_def by (simp split: if_splits)
    then have "offset \<noteq> 0" by (auto simp: BLOCK_LEN_def)
    with True show ?thesis by simp
  next
    case False
    then have "0 < unat ?amount" by (simp add: unat_gt_0)
    moreover have "unat ?amount \<le> unat len" using le by (simp only: word_le_nat_alt)
    ultimately show ?thesis using sub by linarith
  qed
  then show ?case unfolding 2(2) in_measures prod.case by (cases "offset = 0") auto
qed

declare write_blocks.simps [simp del]

text \<open>
  The wait for the card to stop signalling busy (lines 559 to 564): a \<open>do ... while\<close>
  that leaves at the first non-zero byte, or when the counter no longer reads less
  than the deadline, both as \<open>os_time_t\<close>.
\<close>

partial_function (option) wait_not_busy :: "nat \<Rightarrow> os_time_t \<Rightarrow> hw \<Rightarrow> (u8 \<times> hw) option" where
  "wait_not_busy tps timeout s =
     (case hal_spi_tx_val 0xff s of
        (res, s1) \<Rightarrow>
          if res \<noteq> 0 then Some (res, s1)
          else
            (let s2 = os_time_delay (tps div 100) s1
             in if os_time_get s2 < timeout then wait_not_busy tps timeout s2
                else Some (res, s2)))"

text \<open>The \<open>switch\<close> on the low five bits of the last data-response token.\<close>

definition write_status :: "u8 \<Rightarrow> mmc_rc" where
  "write_status res =
     (if res AND 0x1f = 0x05 then MMC_OK
      else if res AND 0x1f = 0x0b then MMC_CRC_ERROR
      else MMC_WRITE_ERROR)"

text \<open>
  \<open>mmc_write\<close>. When the address is not block-aligned it first reads the block with
  \<open>CMD17\<close> into the scratch buffer; chip-select stays asserted from there on.
\<close>

definition mmc_write_data ::
    "nat \<Rightarrow> mmc_cfg \<Rightarrow> size_t \<Rightarrow> u32 \<Rightarrow> size_t \<Rightarrow> mem \<Rightarrow> size_t \<Rightarrow> hw \<Rightarrow> (mmc_rc \<times> hw) option" where
  "mmc_write_data tps mmc block_count block_addr offset buf len s =
     (let cmd = (if block_count = 1 then CMD24 else CMD25)
      in case send_mmc_cmd cmd block_addr s of
           (res, s1) \<Rightarrow>
             if res \<noteq> 0 then Some (MMC_CARD_ERROR, hal_gpio_write (ss_pin mmc) True s1)
             else
               (let s2 = snd (hal_spi_tx_val 0xff s1)
                in case write_blocks cmd offset len 0 buf s2 of
                     (tok, s3) \<Rightarrow>
                       (let status = write_status tok
                        in case wait_not_busy tps (os_time_get s3 + of_nat (5 * tps)) s3 of
                             None \<Rightarrow> None
                           | Some (busy, s4) \<Rightarrow>
                               Some (status, hal_gpio_write (ss_pin mmc) True s4))))"

definition mmc_write ::
    "nat \<Rightarrow> u8 \<Rightarrow> u32 \<Rightarrow> mem \<Rightarrow> size_t \<Rightarrow> hw \<Rightarrow> (mmc_rc \<times> hw) option" where
  "mmc_write tps mmc_id addr buf len s =
     (case mmc_cfg_dev mmc_id s of
        None \<Rightarrow> Some (MMC_DEVICE_ERROR, s)
      | Some mmc \<Rightarrow>
          (let block_len = (len + BLOCK_LEN - 1) AND NOT (BLOCK_LEN - 1);
               block_count = block_len div BLOCK_LEN;
               block_addr = addr div BLOCK_LEN;
               offset = addr - block_addr * BLOCK_LEN;
               s0 = hal_gpio_write (ss_pin mmc) False s
           in if offset \<noteq> 0 then
                (case send_mmc_cmd CMD17 block_addr s0 of
                   (res, s1) \<Rightarrow>
                     if res \<noteq> 0
                     then Some (MMC_CARD_ERROR, hal_gpio_write (ss_pin mmc) True s1)
                     else
                       (case wait_token tps (os_time_get s1 + of_nat (tps div 5)) s1 of
                          None \<Rightarrow> None
                        | Some (tok, s2) \<Rightarrow>
                            if tok \<noteq> 0xFE
                            then Some (MMC_CARD_ERROR, hal_gpio_write (ss_pin mmc) True s2)
                            else
                              (let s3 = read_block_loop 0 s2;
                                   s4 = snd (hal_spi_tx_val 0xff s3);
                                   s5 = snd (hal_spi_tx_val 0xff s4)
                               in mmc_write_data tps mmc block_count block_addr offset
                                    buf len s5)))
              else mmc_write_data tps mmc block_count block_addr offset buf len s0))"

subsection \<open>The command frame as the specification words it\<close>

text \<open>
  Start and transmission bits with the command index, the argument most significant
  byte first, and the CRC byte: fixed for \<open>CMD0\<close> and \<open>CMD8\<close>, a placeholder otherwise.
\<close>

definition command_frame :: "u8 \<Rightarrow> u32 \<Rightarrow> u8 list" where
  "command_frame cmd arg =
     [0x40 OR (cmd AND 0x3F),
      ucast (drop_bit 24 arg), ucast (drop_bit 16 arg), ucast (drop_bit 8 arg), ucast arg,
      if cmd = CMD0 then 0x95 else if cmd = CMD8 then 0x87 else 0x01]"

subsection \<open>Notions used in the proofs\<close>

text \<open>The state after the driver has put the bytes \<open>xs\<close> on the bus.\<close>

definition sent :: "u8 list \<Rightarrow> hw \<Rightarrow> hw" where
  "sent xs s = s\<lparr>mosi := mosi s @ xs\<rparr>"

text \<open>The state after \<open>write_blocks\<close> has sent one block and read its data-response token.\<close>

definition block_sent :: "u8 \<Rightarrow> size_t \<Rightarrow> size_t \<Rightarrow> size_t \<Rightarrow> mem \<Rightarrow> hw \<Rightarrow> hw" where
  "block_sent cmd off len idx buf s =
     (let blk = memcpy (g_block_buf s) (unat off) buf (unat idx)
                  (unat (min (BLOCK_LEN - off) len))
      in (sent ((if cmd = CMD24 then 0xFE else 0xFC) # map blk [0..<512] @ [0xff, 0xff, 0xff]) s)
           \<lparr>g_block_buf := blk\<rparr>)"

text \<open>
  What \<open>write_blocks\<close> puts on the bus for one block: the start token (\<open>0xFE\<close> after
  \<open>CMD24\<close>, \<open>0xFC\<close> otherwise), 512 data bytes, two bytes \<open>0xFF\<close> in place of the CRC, and
  the \<open>0xFF\<close> that clocks the data-response token in.
\<close>

definition data_block :: "u8 \<Rightarrow> u8 list \<Rightarrow> bool" where
  "data_block cmd b \<longleftrightarrow>
     length b = 516 \<and> hd b = (if cmd = CMD24 then 0xFE else 0xFC)
     \<and> drop 513 b = [0xff, 0xff, 0xff]"

text \<open>The handle \<open>mmc_init\<close> stores: its three arguments and the driver's SPI settings.\<close>

definition mmc_handle :: "int \<Rightarrow> nat \<Rightarrow> int \<Rightarrow> mmc_cfg" where
  "mmc_handle spi_n cfg pin =
     \<lparr>spi_num = spi_n, ss_pin = pin, spi_cfg = cfg, settings = Some mmc_settings\<rparr>"

text \<open>
  The state in which \<open>mmc_init\<close> sends \<open>CMD0\<close> when the SPI layer reported no error
  (lines 195 to 231).
\<close>

definition mmc_init_powered :: "nat \<Rightarrow> int \<Rightarrow> nat \<Rightarrow> int \<Rightarrow> hw \<Rightarrow> hw" where
  "mmc_init_powered tps spi_n cfg pin s =
     mmc_init_clocks 0
       (snd (hal_spi_tx_val 0xff
          (hal_gpio_write pin False
             (os_time_delay (tps div 100)
                (hal_gpio_init_out pin True
                   (s\<lparr>g_mmc_cfg := \<lparr>spi_num = spi_n, ss_pin = pin, spi_cfg = cfg,
                                      settings = Some mmc_settings\<rparr>\<rparr>))))))"

text \<open>
  \<open>mmc_init\<close> reaches the operating-condition negotiation (line 290) in state \<open>s3\<close>
  with \<open>cmd_resp = resp\<close>: the SPI layer reported no error, \<open>CMD0\<close> answered exactly
  \<open>R_IDLE\<close>, \<open>CMD8\<close> was not an illegal command and echoed \<open>0x01\<close> and \<open>0xAA\<close>.
\<close>

definition mmc_init_negotiates ::
    "nat \<Rightarrow> int \<Rightarrow> nat \<Rightarrow> int \<Rightarrow> hw \<Rightarrow> u8 list \<Rightarrow> hw \<Rightarrow> bool" where
  "mmc_init_negotiates tps spi_n cfg pin s resp s3 \<longleftrightarrow>
     spi_init_rc s = 0 \<and> spi_config_rc s = 0 \<and>
     (case send_mmc_cmd CMD0 0 (mmc_init_powered tps spi_n cfg pin s) of
        (status, s1) \<Rightarrow>
          status = R_IDLE \<and>
          (case send_mmc_cmd CMD8 0x1AA s1 of
             (status8, s2) \<Rightarrow>
               status8 AND R_ILLEGAL_COMMAND = 0 \<and>
               read_cmd_resp 0 [0, 0, 0, 0] s2 = (resp, s3) \<and>
               resp ! 3 = 0xAA \<and> resp ! 2 = 0x01))"

text \<open>
  The state after \<open>mmc_read\<close> has read one block into the scratch buffer and dropped
  its two CRC bytes.
\<close>

definition block_read :: "hw \<Rightarrow> hw" where
  "block_read s =
     (sent (replicate 514 0xff) s)
       \<lparr>g_block_buf := \<lambda>i. if i < 512 then miso s (length (mosi s) + i) else g_block_buf s i\<rparr>"

subsection \<open>Simulated boards and cards\<close>

text \<open>
  The board at power-up: the driver's globals are zero, nothing has been sent, and the
  card answers the n-th exchange with \<open>sd n\<close>.
\<close>

definition board :: "(nat \<Rightarrow> u8) \<Rightarrow> hw" where
  "board sd =
     \<lparr>g_mmc_cfg = \<lparr>spi_num = 0, ss_pin = 0, spi_cfg = 0, settings = None\<rparr>,
      g_block_buf = (\<lambda>i. 0), gpio = (\<lambda>pin. False), mosi = [], miso = sd, os_time = 0,
      spi_init_rc = 0, spi_config_rc = 0\<rparr>"

text \<open>The same board when the tick counter reads \<open>t\<close>.\<close>

definition board_at :: "os_time_t \<Rightarrow> (nat \<Rightarrow> u8) \<Rightarrow> hw" where
  "board_at t sd = (board sd)\<lparr>os_time := t\<rparr>"

text \<open>
  A card that answers \<open>mmc_init\<close> as the specification's scenario has it: idle to
  \<open>CMD0\<close> (exchange 81), the echo \<open>00 00 01 AA\<close> to \<open>CMD8\<close> (89 to 92), idle to the
  first two \<open>ACMD41\<close> and ready to the third (106, 120, 134), ready to \<open>CMD58\<close> (141),
  and an OCR whose first byte is \<open>ocr\<close> (142).
\<close>

definition sim_card :: "u8 \<Rightarrow> nat \<Rightarrow> u8" where
  "sim_card ocr n =
     (if n = 89 \<or> n = 90 then 0x00
      else if n = 92 then 0xAA
      else if n = 134 \<or> n = 141 then 0x00
      else if n = 142 then ocr
      else if n = 143 \<or> n = 144 \<or> n = 145 then 0x00
      else 0x01)"

text \<open>A card that echoes \<open>CMD8\<close> and then never leaves the idle state.\<close>

definition idle_card :: "nat \<Rightarrow> u8" where
  "idle_card n = (if n = 92 then 0xAA else 0x01)"

text \<open>
  A card that accepts a read command at once (exchange 6), sends the start token in
  the next exchange and then data: the number of the exchange, as a byte.
\<close>

definition read_card :: "nat \<Rightarrow> u8" where
  "read_card n = (if n = 6 then 0x00 else if n = 7 then 0xFE else of_nat n)"

text \<open>
  A card that accepts a write command at once (exchange 6), answers \<open>tok\<close> as the
  data-response token of the first block (exchange 523), and is busy for one poll.
\<close>

definition write_card :: "u8 \<Rightarrow> nat \<Rightarrow> u8" where
  "write_card tok n =
     (if n = 6 then 0x00 else if n = 523 then tok else if n = 524 then 0x00 else 0xFF)"

text \<open>The state in which \<open>mmc_init\<close> starts the negotiation on a card that answers at once.\<close>

definition negotiated :: "nat \<Rightarrow> int \<Rightarrow> nat \<Rightarrow> int \<Rightarrow> (nat \<Rightarrow> u8) \<Rightarrow> hw" where
  "negotiated tps spi_n cfg pin sd =
     sent (command_frame CMD0 0 @ [0xff] @ command_frame CMD8 0x1AA @ [0xff] @ replicate 4 0xff)
       (mmc_init_powered tps spi_n cfg pin (board sd))"

section \<open>Properties\<close>

subsection \<open>The bus and the command codec\<close>

lemma sent_fields [simp]:
  "g_mmc_cfg (sent xs s) = g_mmc_cfg s"
  "g_block_buf (sent xs s) = g_block_buf s"
  "gpio (sent xs s) = gpio s"
  "mosi (sent xs s) = mosi s @ xs"
  "miso (sent xs s) = miso s"
  "os_time (sent xs s) = os_time s"
  "spi_init_rc (sent xs s) = spi_init_rc s"
  "spi_config_rc (sent xs s) = spi_config_rc s"
  by (simp_all add: sent_def)

lemma sent_sent [simp]: "sent ys (sent xs s) = sent (xs @ ys) s"
  by (simp add: sent_def)

lemma sent_Nil [simp]: "sent [] s = s"
  by (simp add: sent_def)

lemma hal_spi_tx_val_eq: "hal_spi_tx_val v s = (miso s (length (mosi s)), sent [v] s)"
  by (simp add: hal_spi_tx_val_def sent_def)

lemma cmd_poll_sent:
  "\<exists>k. 1 \<le> k \<and> k \<le> Suc n \<and>
       cmd_poll (Suc n) st s = (miso s (length (mosi s) + k - 1), sent (replicate k 0xff) s)"
proof (induction n arbitrary: st s)
  case 0
  show ?case by (rule exI [of _ 1]) (simp add: hal_spi_tx_val_eq)
next
  case (Suc n)
  show ?case
  proof (cases "miso s (length (mosi s)) AND 0x80 = 0")
    case True
    then show ?thesis by (intro exI [of _ 1]) (simp add: hal_spi_tx_val_eq)
  next
    case False
    from Suc [of "miso s (length (mosi s))" "sent [0xff] s"]
    obtain k where k: "1 \<le> k" "k \<le> Suc n"
      "cmd_poll (Suc n) (miso s (length (mosi s))) (sent [0xff] s) =
         (miso s (length (mosi s) + 1 + k - 1), sent (replicate (Suc k) 0xff) s)"
      by (auto simp: replicate_append_same)
    show ?thesis
      apply (rule exI [of _ "Suc k"])
      using k False
      apply (subst cmd_poll.simps)
      apply (simp add: hal_spi_tx_val_eq del: cmd_poll.simps)
      done
  qed
qed

lemma or_and_absorb_aux: "(x::'a::len word) OR (c AND x) = x"
  by (auto simp: bit_eq_iff bit_or_iff bit_and_iff)

lemma start_byte_eq: "(0x40::u8) OR (cmd AND NOT 0x80) = 0x40 OR (cmd AND 0x3F)"
proof -
  have a: "NOT (0x80::u8) = 0x40 OR 0x3F" by simp
  have "(0x40::u8) OR (cmd AND NOT 0x80) = 0x40 OR ((cmd AND 0x40) OR (cmd AND 0x3F))"
    unfolding a by (simp only: bit.conj_disj_distrib)
  also have "\<dots> = (0x40 OR (cmd AND 0x40)) OR (cmd AND 0x3F)"
    by (simp only: or.assoc)
  also have "\<dots> = 0x40 OR (cmd AND 0x3F)"
    by (simp only: or_and_absorb_aux)
  finally show ?thesis .
qed

lemma ucast_low_byte: "(ucast ((w::u32) AND 0xff) :: u8) = ucast w"
proof -
  have "(0xff::u32) = mask 8" by (simp add: mask_eq_exp_minus_1)
  then show ?thesis by (simp add: bit_eq_iff bit_simps) 
qed

lemma send_frame_sent:
  "snd (hal_spi_tx_val (if cmd = CMD0 then 0x95 else if cmd = CMD8 then 0x87 else 0x01)
     (snd (hal_spi_tx_val (ucast (p AND 0xff))
       (snd (hal_spi_tx_val (ucast (drop_bit 8 p AND 0xff))
         (snd (hal_spi_tx_val (ucast (drop_bit 16 p AND 0xff))
           (snd (hal_spi_tx_val (ucast (drop_bit 24 p AND 0xff))
             (snd (hal_spi_tx_val (0x40 OR (cmd AND NOT 0x80)) s)))))))))))
   = sent (command_frame cmd p) s"
  by (simp only: hal_spi_tx_val_eq snd_conv sent_sent start_byte_eq ucast_low_byte
        command_frame_def append.simps)

lemma send_mmc_cmd_unfold:
  "send_mmc_cmd cmd p s =
     cmd_poll 255 0 (sent (command_frame cmd p)
       (if cmd AND 0x80 \<noteq> 0 then snd (cmd_poll 255 0 (sent (command_frame CMD55 0) s))
        else s))"
proof -
  have plain: "send_mmc_cmd c q t = cmd_poll 255 0 (sent (command_frame c q) t)"
    if "c AND 0x80 = 0" for c q t
    using that by (subst send_mmc_cmd.simps) (simp only: Let_def send_frame_sent if_False simp_thms)
  have c55: "CMD55 AND (0x80::u8) = 0" by (simp add: CMD55_def)
  show ?thesis
  proof (cases "cmd AND 0x80 = 0")
    case True
    then show ?thesis by (simp add: plain)
  next
    case False
    then show ?thesis
      by (subst send_mmc_cmd.simps)
         (simp only: Let_def send_frame_sent if_True simp_thms plain [OF c55])
  qed
qed

lemma cmd_poll_255:
  "\<exists>k. 1 \<le> k \<and> k \<le> 255 \<and>
       cmd_poll 255 st s = (miso s (length (mosi s) + k - 1), sent (replicate k 0xff) s)"
  using cmd_poll_sent [of 254 st s] by (simp del: cmd_poll.simps)

lemma send_mmc_cmd_result:
  "\<exists>k55 k. 1 \<le> k55 \<and> k55 \<le> 255 \<and> 1 \<le> k \<and> k \<le> 255 \<and>
     send_mmc_cmd cmd p s =
       (miso s (length (mosi s) + (if cmd AND 0x80 \<noteq> 0 then 6 + k55 else 0) + 6 + k - 1),
        sent ((if cmd AND 0x80 \<noteq> 0 then command_frame CMD55 0 @ replicate k55 0xff else [])
              @ command_frame cmd p @ replicate k 0xff) s)"
proof -
  obtain k55 where k55: "1 \<le> k55" "k55 \<le> 255"
    "snd (cmd_poll 255 0 (sent (command_frame CMD55 0) s)) =
       sent (command_frame CMD55 0 @ replicate k55 0xff) s"
    using cmd_poll_255 [of 0 "sent (command_frame CMD55 0) s"] by auto
  let ?s0 = "if cmd AND 0x80 \<noteq> 0 then snd (cmd_poll 255 0 (sent (command_frame CMD55 0) s)) else s"
  obtain k where k: "1 \<le> k" "k \<le> 255"
    "cmd_poll 255 0 (sent (command_frame cmd p) ?s0) =
       (miso ?s0 (length (mosi (sent (command_frame cmd p) ?s0)) + k - 1),
        sent (replicate k 0xff) (sent (command_frame cmd p) ?s0))"
    using cmd_poll_255 [of 0 "sent (command_frame cmd p) ?s0"] by auto
  have len: "length (command_frame c q) = 6" for c q
    by (simp add: command_frame_def)
  show ?thesis
    apply (rule exI [of _ k55], rule exI [of _ k])
    using k55(1,2) k(1,2)
    by (simp add: send_mmc_cmd_unfold k(3) k55(3) len add.assoc)
qed

lemma send_mmc_cmd_sent:
  "\<exists>xs. xs \<noteq> [] \<and>
     send_mmc_cmd cmd p s = (miso s (length (mosi s) + length xs - 1), sent xs s)"
proof -
  obtain k55 k where k: "1 \<le> k"
    "send_mmc_cmd cmd p s =
       (miso s (length (mosi s) + (if cmd AND 0x80 \<noteq> 0 then 6 + k55 else 0) + 6 + k - 1),
        sent ((if cmd AND 0x80 \<noteq> 0 then command_frame CMD55 0 @ replicate k55 0xff else [])
              @ command_frame cmd p @ replicate k 0xff) s)"
    using send_mmc_cmd_result [of cmd p s] by blast
  have len: "length (command_frame c q) = 6" for c q
    by (simp add: command_frame_def)
  have ne: "command_frame cmd p \<noteq> []"
    by (simp add: command_frame_def)
  show ?thesis
    by (rule exI [of _ "(if cmd AND 0x80 \<noteq> 0 then command_frame CMD55 0 @ replicate k55 0xff
                          else []) @ command_frame cmd p @ replicate k 0xff"])
       (simp add: k(2) len ne add.assoc)
qed

lemma hal_fields [simp]:
  "g_mmc_cfg (hal_gpio_write pin v s) = g_mmc_cfg s"
  "g_block_buf (hal_gpio_write pin v s) = g_block_buf s"
  "gpio (hal_gpio_write pin v s) = (gpio s)(pin := v)"
  "mosi (hal_gpio_write pin v s) = mosi s"
  "miso (hal_gpio_write pin v s) = miso s"
  "os_time (hal_gpio_write pin v s) = os_time s"
  "spi_init_rc (hal_gpio_write pin v s) = spi_init_rc s"
  "spi_config_rc (hal_gpio_write pin v s) = spi_config_rc s"
  "g_mmc_cfg (hal_gpio_init_out pin v s) = g_mmc_cfg s"
  "g_block_buf (hal_gpio_init_out pin v s) = g_block_buf s"
  "gpio (hal_gpio_init_out pin v s) = (gpio s)(pin := v)"
  "mosi (hal_gpio_init_out pin v s) = mosi s"
  "miso (hal_gpio_init_out pin v s) = miso s"
  "os_time (hal_gpio_init_out pin v s) = os_time s"
  "spi_init_rc (hal_gpio_init_out pin v s) = spi_init_rc s"
  "spi_config_rc (hal_gpio_init_out pin v s) = spi_config_rc s"
  "g_mmc_cfg (os_time_delay d s) = g_mmc_cfg s"
  "g_block_buf (os_time_delay d s) = g_block_buf s"
  "gpio (os_time_delay d s) = gpio s"
  "mosi (os_time_delay d s) = mosi s"
  "miso (os_time_delay d s) = miso s"
  "os_time (os_time_delay d s) = os_time s + of_nat d"
  "spi_init_rc (os_time_delay d s) = spi_init_rc s"
  "spi_config_rc (os_time_delay d s) = spi_config_rc s"
  by (simp_all add: hal_gpio_write_def hal_gpio_init_out_def os_time_delay_def)

lemma mmc_init_clocks_sent: "mmc_init_clocks i s = sent (replicate (74 - i) 0xff) s"
proof (induction i s rule: mmc_init_clocks.induct)
  case (1 i s)
  show ?case
  proof (cases "i < 74")
    case True
    then have "74 - i = Suc (74 - Suc i)" by simp
    with True 1 show ?thesis
      by (subst mmc_init_clocks.simps) (simp add: hal_spi_tx_val_eq)
  next
    case False
    then show ?thesis by (subst mmc_init_clocks.simps) simp
  qed
qed

lemma read_cmd_resp_eq:
  "length r = 4 \<Longrightarrow>
   read_cmd_resp 0 r s =
     ([miso s (length (mosi s)), miso s (length (mosi s) + 1),
       miso s (length (mosi s) + 2), miso s (length (mosi s) + 3)],
      sent (replicate 4 0xff) s)"
proof -
  assume "length r = 4"
  then obtain a b c d where r: "r = [a, b, c, d]"
    by (cases r; simp; rename_tac x xs; case_tac xs; simp; rename_tac y ys; case_tac ys; simp;
        rename_tac z zs; case_tac zs; simp)
  have n: "(4::nat) = Suc (Suc (Suc (Suc 0)))" by simp
  show ?thesis
    unfolding r
    apply (subst read_cmd_resp.simps, simp add: hal_spi_tx_val_eq)
    apply (subst read_cmd_resp.simps, simp add: hal_spi_tx_val_eq)
    apply (subst read_cmd_resp.simps, simp add: hal_spi_tx_val_eq)
    apply (subst read_cmd_resp.simps, simp add: hal_spi_tx_val_eq)
    apply (subst read_cmd_resp.simps, simp add: hal_spi_tx_val_eq n eval_nat_numeral)
    done
qed

lemma read_block_loop_eq:
  "read_block_loop n s =
     (sent (replicate (512 - n) 0xff) s)
       \<lparr>g_block_buf := \<lambda>i. if n \<le> i \<and> i < 512 then miso s (length (mosi s) + (i - n))
                             else g_block_buf s i\<rparr>"
proof (induction n s rule: read_block_loop.induct)
  case (1 n s)
  show ?case
  proof (cases "n < 512")
    case True
    then have r: "512 - n = Suc (512 - Suc n)" by simp
    define v where "v = miso s (length (mosi s))"
    define s1 where "s1 = sent [0xff] s"
    have tx: "(v, s1) = hal_spi_tx_val 0xff s"
      by (simp add: hal_spi_tx_val_eq v_def s1_def)
    have step: "read_block_loop n s =
            read_block_loop (Suc n) (s1\<lparr>g_block_buf := (g_block_buf s1)(n := v)\<rparr>)"
      using True by (subst read_block_loop.simps) (simp add: tx [symmetric])
    have bufs: "(\<lambda>i. if Suc n \<le> i \<and> i < 512 then miso s (Suc (length (mosi s)) + (i - Suc n))
                   else if i = n then v else g_block_buf s i) =
                (\<lambda>i. if n \<le> i \<and> i < 512 then miso s (length (mosi s) + (i - n))
                   else g_block_buf s i)"
      using True by (auto simp: fun_eq_iff v_def Suc_diff_Suc le_Suc_eq)
    show ?thesis
      unfolding step 1 [OF True tx]
      using True
      by (intro hw.equality)
         (auto simp: s1_def r fun_upd_def fun_eq_iff v_def Suc_diff_Suc le_Suc_eq)
  next
    case False
    then show ?thesis
      by (subst read_block_loop.simps) (auto intro!: hw.equality simp: fun_eq_iff)
  qed
qed

lemma write_block_loop_eq:
  "write_block_loop n s = sent (map (g_block_buf s) [n..<512]) s"
proof (induction n s rule: write_block_loop.induct)
  case (1 n s)
  show ?case
  proof (cases "n < 512")
    case True
    with 1 show ?thesis
      by (subst write_block_loop.simps) (simp add: hal_spi_tx_val_eq upt_conv_Cons)
  next
    case False
    then show ?thesis by (subst write_block_loop.simps) simp
  qed
qed

subsection \<open>The polling loops\<close>

lemma delay_sent [simp]: "sent xs (os_time_delay d s) = os_time_delay d (sent xs s)"
  by (simp add: sent_def os_time_delay_def)

lemma delay_delay [simp]: "os_time_delay d (os_time_delay e s) = os_time_delay (e + d) s"
  by (simp add: os_time_delay_def)

lemma delay_0 [simp]: "os_time_delay 0 s = s"
  by (simp add: os_time_delay_def)

lemma os_time_delay_unat:
  "unat t + d < 2 ^ 32 \<Longrightarrow> unat ((t::os_time_t) + of_nat d) = unat t + d"
  by (simp add: unat_word_ariths unat_of_nat)

lemma wait_token_result:
  assumes "wait_token tps tmo s = Some y"
  shows "\<exists>j d. 1 \<le> j \<and> snd y = os_time_delay d (sent (replicate j 0xff) s)
         \<and> fst y = miso s (length (mosi s) + j - 1)"
proof -
  let ?P = "\<lambda>(tps::nat) (tmo::os_time_t) s y.
     \<exists>j d. 1 \<le> j \<and> snd y = os_time_delay d (sent (replicate j 0xff) s)
         \<and> fst y = miso s (length (mosi s) + j - 1)"
  have "?P tps tmo s y"
  proof (rule wait_token.raw_induct [where P = ?P])
    show "wait_token tps tmo s = Some y" by fact
  next
    fix wt :: "nat \<Rightarrow> os_time_t \<Rightarrow> hw \<Rightarrow> (u8 \<times> hw) option" and tps tmo s y
    assume IH: "\<And>tps tmo s y. wt tps tmo s = Some y \<Longrightarrow> ?P tps tmo s y"
      and eq: "(case hal_spi_tx_val 0xff s of
        (res, s1) \<Rightarrow>
          if res \<noteq> 0xFF then Some (res, s1)
          else
            (let s2 = os_time_delay (tps div 20) s1
             in if os_time_get s2 < tmo then wt tps tmo s2
                else Some (res, s2))) = Some y"
    let ?s2 = "os_time_delay (tps div 20) (sent [0xff] s)"
    show "?P tps tmo s y"
    proof (cases "miso s (length (mosi s)) \<noteq> 0xFF")
      case True
      with eq have "y = (miso s (length (mosi s)), sent [0xff] s)"
        by (simp add: hal_spi_tx_val_eq)
      then show ?thesis
        by (intro exI [where x = 1] exI [where x = 0]) simp
    next
      case False
      show ?thesis
      proof (cases "os_time_get ?s2 < tmo")
        case True
        with False eq have "wt tps tmo ?s2 = Some y"
          by (simp add: hal_spi_tx_val_eq Let_def)
        from IH [OF this] obtain j d where jd: "1 \<le> j"
          "snd y = os_time_delay d (sent (replicate j 0xff) ?s2)"
          "fst y = miso ?s2 (length (mosi ?s2) + j - 1)" by blast
        show ?thesis
          apply (rule exI [where x = "Suc j"], rule exI [where x = "tps div 20 + d"])
          using jd by (simp add: replicate_append_same)
      next
        case no: False
        with False eq have "y = (miso s (length (mosi s)), ?s2)"
          by (simp add: hal_spi_tx_val_eq Let_def)
        then show ?thesis
          by (intro exI [where x = 1] exI [where x = "tps div 20"]) simp
      qed
    qed
  qed
  then show ?thesis .
qed

lemma wait_token_total:
  assumes d: "20 \<le> tps" and nw: "unat tmo + tps div 20 < 2 ^ 32"
  shows "\<exists>y. wait_token tps tmo s = Some y"
proof -
  have d: "0 < tps div 20" using d by (simp add: div_greater_zero_iff)
  have below: "\<exists>y. wait_token tps tmo s = Some y" if "os_time s < tmo" for s
    using that
  proof (induction "unat tmo - unat (os_time s)" arbitrary: s rule: less_induct)
    case less
    let ?s2 = "os_time_delay (tps div 20) (sent [0xff] s)"
    show ?case
    proof (cases "miso s (length (mosi s)) \<noteq> 0xFF \<or> \<not> os_time_get ?s2 < tmo")
      case True
      then show ?thesis
        by (subst wait_token.simps) (auto simp: hal_spi_tx_val_eq Let_def)
    next
      case False
      then have lt: "os_time ?s2 < tmo" by (simp add: os_time_get_def)
      have "unat (os_time s) < unat tmo" using less.prems by (simp add: word_less_nat_alt)
      then have "unat (os_time ?s2) = unat (os_time s) + tps div 20"
        using nw by (simp add: os_time_delay_unat)
      then have "unat tmo - unat (os_time ?s2) < unat tmo - unat (os_time s)"
        using d \<open>unat (os_time s) < unat tmo\<close> by simp
      from less.hyps [OF this lt] obtain y where "wait_token tps tmo ?s2 = Some y" ..
      with False show ?thesis
        by (subst wait_token.simps) (simp add: hal_spi_tx_val_eq Let_def)
    qed
  qed
  let ?s2 = "os_time_delay (tps div 20) (sent [0xff] s)"
  show ?thesis
  proof (cases "miso s (length (mosi s)) \<noteq> 0xFF \<or> \<not> os_time_get ?s2 < tmo")
    case True
    then show ?thesis
      by (subst wait_token.simps) (auto simp: hal_spi_tx_val_eq Let_def)
  next
    case False
    then have "os_time ?s2 < tmo" by (simp add: os_time_get_def)
    from below [OF this] obtain y where "wait_token tps tmo ?s2 = Some y" ..
    with False show ?thesis
      by (subst wait_token.simps) (simp add: hal_spi_tx_val_eq Let_def)
  qed
qed

lemma wait_not_busy_result:
  assumes "wait_not_busy tps tmo s = Some y"
  shows "\<exists>j d. 1 \<le> j \<and> snd y = os_time_delay d (sent (replicate j 0xff) s)
         \<and> fst y = miso s (length (mosi s) + j - 1)"
proof -
  let ?P = "\<lambda>(tps::nat) (tmo::os_time_t) s y.
     \<exists>j d. 1 \<le> j \<and> snd y = os_time_delay d (sent (replicate j 0xff) s)
         \<and> fst y = miso s (length (mosi s) + j - 1)"
  have "?P tps tmo s y"
  proof (rule wait_not_busy.raw_induct [where P = ?P])
    show "wait_not_busy tps tmo s = Some y" by fact
  next
    fix wt :: "nat \<Rightarrow> os_time_t \<Rightarrow> hw \<Rightarrow> (u8 \<times> hw) option" and tps tmo s y
    assume IH: "\<And>tps tmo s y. wt tps tmo s = Some y \<Longrightarrow> ?P tps tmo s y"
      and eq: "(case hal_spi_tx_val 0xff s of
        (res, s1) \<Rightarrow>
          if res \<noteq> 0 then Some (res, s1)
          else
            (let s2 = os_time_delay (tps div 100) s1
             in if os_time_get s2 < tmo then wt tps tmo s2
                else Some (res, s2))) = Some y"
    let ?s2 = "os_time_delay (tps div 100) (sent [0xff] s)"
    show "?P tps tmo s y"
    proof (cases "miso s (length (mosi s)) \<noteq> 0")
      case True
      with eq have "y = (miso s (length (mosi s)), sent [0xff] s)"
        by (simp add: hal_spi_tx_val_eq)
      then show ?thesis
        by (intro exI [where x = 1] exI [where x = 0]) simp
    next
      case False
      show ?thesis
      proof (cases "os_time_get ?s2 < tmo")
        case True
        with False eq have "wt tps tmo ?s2 = Some y"
          by (simp add: hal_spi_tx_val_eq Let_def)
        from IH [OF this] obtain j d where jd: "1 \<le> j"
          "snd y = os_time_delay d (sent (replicate j 0xff) ?s2)"
          "fst y = miso ?s2 (length (mosi ?s2) + j - 1)" by blast
        show ?thesis
          apply (rule exI [where x = "Suc j"], rule exI [where x = "tps div 100 + d"])
          using jd by (simp add: replicate_append_same)
      next
        case no: False
        with False eq have "y = (miso s (length (mosi s)), ?s2)"
          by (simp add: hal_spi_tx_val_eq Let_def)
        then show ?thesis
          by (intro exI [where x = 1] exI [where x = "tps div 100"]) simp
      qed
    qed
  qed
  then show ?thesis .
qed

lemma wait_not_busy_total:
  assumes d: "100 \<le> tps" and nw: "unat tmo + tps div 100 < 2 ^ 32"
  shows "\<exists>y. wait_not_busy tps tmo s = Some y"
proof -
  have d: "0 < tps div 100" using d by (simp add: div_greater_zero_iff)
  have below: "\<exists>y. wait_not_busy tps tmo s = Some y" if "os_time s < tmo" for s
    using that
  proof (induction "unat tmo - unat (os_time s)" arbitrary: s rule: less_induct)
    case less
    let ?s2 = "os_time_delay (tps div 100) (sent [0xff] s)"
    show ?case
    proof (cases "miso s (length (mosi s)) \<noteq> 0 \<or> \<not> os_time_get ?s2 < tmo")
      case True
      then show ?thesis
        by (subst wait_not_busy.simps) (auto simp: hal_spi_tx_val_eq Let_def)
    next
      case False
      then have lt: "os_time ?s2 < tmo" by (simp add: os_time_get_def)
      have "unat (os_time s) < unat tmo" using less.prems by (simp add: word_less_nat_alt)
      then have "unat (os_time ?s2) = unat (os_time s) + tps div 100"
        using nw by (simp add: os_time_delay_unat)
      then have "unat tmo - unat (os_time ?s2) < unat tmo - unat (os_time s)"
        using d \<open>unat (os_time s) < unat tmo\<close> by simp
      from less.hyps [OF this lt] obtain y where "wait_not_busy tps tmo ?s2 = Some y" ..
      with False show ?thesis
        by (subst wait_not_busy.simps) (simp add: hal_spi_tx_val_eq Let_def)
    qed
  qed
  let ?s2 = "os_time_delay (tps div 100) (sent [0xff] s)"
  show ?thesis
  proof (cases "miso s (length (mosi s)) \<noteq> 0 \<or> \<not> os_time_get ?s2 < tmo")
    case True
    then show ?thesis
      by (subst wait_not_busy.simps) (auto simp: hal_spi_tx_val_eq Let_def)
  next
    case False
    then have "os_time ?s2 < tmo" by (simp add: os_time_get_def)
    from below [OF this] obtain y where "wait_not_busy tps tmo ?s2 = Some y" ..
    with False show ?thesis
      by (subst wait_not_busy.simps) (simp add: hal_spi_tx_val_eq Let_def)
  qed
qed

lemma wait_leave_idle_result:
  assumes "wait_leave_idle tps tmo s = Some y"
  shows "\<exists>xs d. xs \<noteq> [] \<and> snd y = os_time_delay d (sent xs s)
         \<and> fst y = miso s (length (mosi s) + length xs - 1)"
proof -
  let ?P = "\<lambda>(tps::nat) (tmo::os_time_t) s y.
     \<exists>xs d. xs \<noteq> [] \<and> snd y = os_time_delay d (sent xs s)
         \<and> fst y = miso s (length (mosi s) + length xs - 1)"
  have "?P tps tmo s y"
  proof (rule wait_leave_idle.raw_induct [where P = ?P])
    show "wait_leave_idle tps tmo s = Some y" by fact
  next
    fix wl :: "nat \<Rightarrow> os_time_t \<Rightarrow> hw \<Rightarrow> (u8 \<times> hw) option" and tps tmo s y
    assume IH: "\<And>tps tmo s y. wl tps tmo s = Some y \<Longrightarrow> ?P tps tmo s y"
      and eq: "(case send_mmc_cmd ACMD41 HCS s of
        (status, s1) \<Rightarrow>
          if status AND R_IDLE = 0 \<or> os_time_get s1 > tmo then Some (status, s1)
          else wl tps tmo (os_time_delay (tps div 10) s1)) = Some y"
    obtain xs where xs: "xs \<noteq> []"
      "send_mmc_cmd ACMD41 HCS s = (miso s (length (mosi s) + length xs - 1), sent xs s)"
      using send_mmc_cmd_sent by blast
    let ?st = "miso s (length (mosi s) + length xs - 1)"
    show "?P tps tmo s y"
    proof (cases "?st AND R_IDLE = 0 \<or> os_time_get (sent xs s) > tmo")
      case True
      with eq xs(2) have "y = (?st, sent xs s)" by auto
      then show ?thesis
        using xs(1) by (intro exI [where x = xs] exI [where x = 0]) simp
    next
      case False
      let ?s2 = "os_time_delay (tps div 10) (sent xs s)"
      from False eq xs(2) have "wl tps tmo ?s2 = Some y" by auto
      from IH [OF this] obtain ys d where yd: "ys \<noteq> []"
        "snd y = os_time_delay d (sent ys ?s2)"
        "fst y = miso ?s2 (length (mosi ?s2) + length ys - 1)" by blast
      show ?thesis
        apply (rule exI [where x = "xs @ ys"], rule exI [where x = "tps div 10 + d"])
        using yd xs(1) by (simp add: add.assoc)
    qed
  qed
  then show ?thesis .
qed

subsection \<open>What the transfers leave unchanged\<close>

lemma read_cmd_resp_snd: "snd (read_cmd_resp i r s) = sent (replicate (4 - i) 0xff) s"
proof (induction i r s rule: read_cmd_resp.induct)
  case (1 i r s)
  show ?case
  proof (cases "i < 4")
    case True
    then have "4 - i = Suc (4 - Suc i)" by simp
    with True 1 show ?thesis
      by (subst read_cmd_resp.simps) (simp add: hal_spi_tx_val_eq)
  next
    case False
    then show ?thesis by (subst read_cmd_resp.simps) simp
  qed
qed

lemma send_mmc_cmd_cfg: "send_mmc_cmd c p s = (r, s1) \<Longrightarrow> g_mmc_cfg s1 = g_mmc_cfg s"
  using send_mmc_cmd_sent [of c p s] by auto

lemma read_cmd_resp_cfg: "read_cmd_resp i r s = (r', s1) \<Longrightarrow> g_mmc_cfg s1 = g_mmc_cfg s"
  using read_cmd_resp_snd [of i r s] by simp

lemma wait_leave_idle_cfg:
  "wait_leave_idle tps tmo s = Some (r, s1) \<Longrightarrow> g_mmc_cfg s1 = g_mmc_cfg s"
  by (drule wait_leave_idle_result) auto

lemma wait_token_cfg:
  "wait_token tps tmo s = Some (r, s1) \<Longrightarrow> g_mmc_cfg s1 = g_mmc_cfg s"
  by (drule wait_token_result) auto

lemma wait_not_busy_cfg:
  "wait_not_busy tps tmo s = Some (r, s1) \<Longrightarrow> g_mmc_cfg s1 = g_mmc_cfg s"
  by (drule wait_not_busy_result) auto

lemma read_blocks_cfg:
  "g_mmc_cfg (snd (read_blocks bc off len idx buf s)) = g_mmc_cfg s"
proof (induction bc off len idx buf s rule: read_blocks.induct)
  case (1 bc off len idx buf s)
  show ?case
  proof (cases "bc = 0")
    case True
    then show ?thesis by (subst read_blocks.simps) simp
  next
    case False
    show ?thesis
      apply (subst read_blocks.simps)
      using False
      apply (simp add: Let_def del: read_blocks.simps)
      apply (subst 1 [OF False refl refl refl refl refl])
      apply (simp add: hal_spi_tx_val_eq read_block_loop_eq)
      done
  qed
qed

lemma write_blocks_step:
  "write_blocks cmd off len idx buf s =
     (let amount = min (BLOCK_LEN - off) len;
          s6 = block_sent cmd off len idx buf s;
          res = miso s (length (mosi s) + 515)
      in if res AND 0x1f \<noteq> 0x05 then (res, s6)
         else if len - amount \<noteq> 0
         then write_blocks cmd 0 (len - amount) (idx + amount) buf s6
         else (res, s6))"
proof -
  let ?blk = "memcpy (g_block_buf s) (unat off) buf (unat idx) (unat (min (BLOCK_LEN - off) len))"
  let ?s1 = "snd (hal_spi_tx_val (if cmd = CMD24 then 0xFE else 0xFC) s)"
  let ?s2 = "?s1\<lparr>g_block_buf :=
                  memcpy (g_block_buf ?s1) (unat off) buf (unat idx)
                    (unat (min (BLOCK_LEN - off) len))\<rparr>"
  let ?s5 = "snd (hal_spi_tx_val 0xff (snd (hal_spi_tx_val 0xff (write_block_loop 0 ?s2))))"
  have s5: "?s5 = (sent ((if cmd = CMD24 then 0xFE else 0xFC) # map ?blk [0..<512] @ [0xff, 0xff]) s)
                     \<lparr>g_block_buf := ?blk\<rparr>"
    by (intro hw.equality) (simp_all add: hal_spi_tx_val_eq write_block_loop_eq)
  have res: "fst (hal_spi_tx_val 0xff ?s5) = miso s (length (mosi s) + 515)"
    unfolding s5 by (simp add: hal_spi_tx_val_eq)
  have s6: "snd (hal_spi_tx_val 0xff ?s5) = block_sent cmd off len idx buf s"
    unfolding s5 by (intro hw.equality) (simp_all add: hal_spi_tx_val_eq block_sent_def Let_def)
  show ?thesis
    by (subst write_blocks.simps) (simp only: Let_def res s6)
qed

lemma block_sent_fields [simp]:
  "g_mmc_cfg (block_sent cmd off len idx buf s) = g_mmc_cfg s"
  "gpio (block_sent cmd off len idx buf s) = gpio s"
  "miso (block_sent cmd off len idx buf s) = miso s"
  "os_time (block_sent cmd off len idx buf s) = os_time s"
  "length (mosi (block_sent cmd off len idx buf s)) = length (mosi s) + 516"
  by (simp_all add: block_sent_def Let_def)

lemma write_blocks_induct [case_names step]:
  assumes step: "\<And>cmd off len idx buf s.
     (miso s (length (mosi s) + 515) AND 0x1f = 0x05 \<Longrightarrow>
      len - min (BLOCK_LEN - off) len \<noteq> 0 \<Longrightarrow>
      P cmd 0 (len - min (BLOCK_LEN - off) len) (idx + min (BLOCK_LEN - off) len) buf
        (block_sent cmd off len idx buf s))
     \<Longrightarrow> P cmd off len idx buf s"
  shows "P cmd off len idx buf s"
proof -
  have "\<forall>off len idx s. 2 * unat len + (if off = 0 then 0 else 1) = n
          \<longrightarrow> P cmd off len idx buf s" for n :: nat
  proof (induction n rule: less_induct)
    case (less n)
    show ?case
    proof (intro allI impI)
      fix off len :: size_t and idx s
      assume n: "2 * unat len + (if off = 0 then 0 else 1) = n"
      let ?amount = "min (BLOCK_LEN - off) len"
      show "P cmd off len idx buf s"
      proof (rule step)
        assume nz: "len - ?amount \<noteq> 0"
        have le: "?amount \<le> len" by (rule min.cobounded2)
        have sub: "unat (len - ?amount) = unat len - unat ?amount"
          using le by (rule unat_sub)
        have "unat (len - ?amount) < unat len \<or>
              unat (len - ?amount) = unat len \<and> off \<noteq> 0"
        proof (cases "?amount = 0")
          case True
          with nz have "len \<noteq> 0" by simp
          with True have "BLOCK_LEN - off = 0" unfolding min_def by (simp split: if_splits)
          then have "off \<noteq> 0" by (auto simp: BLOCK_LEN_def)
          with True show ?thesis by simp
        next
          case False
          then have "0 < unat ?amount" by (simp add: unat_gt_0)
          moreover have "unat ?amount \<le> unat len" using le by (simp only: word_le_nat_alt)
          ultimately show ?thesis using sub by linarith
        qed
        then have lt: "2 * unat (len - ?amount) + (if (0::size_t) = 0 then 0 else 1) < n"
          using n by (cases "off = 0") auto
        from less.IH [OF lt]
        show "P cmd 0 (len - ?amount) (idx + ?amount) buf (block_sent cmd off len idx buf s)"
          by blast
      qed
    qed
  qed
  then show ?thesis by blast
qed

lemma block_sent_mosi:
  "\<exists>b. data_block cmd b \<and> mosi (block_sent cmd off len idx buf s) = mosi s @ b"
  by (simp add: block_sent_def Let_def data_block_def)

text \<open>
  The loop sends one block after the other and returns the byte the card answered in
  its last exchange; every token before that one was an acceptance.
\<close>

lemma write_blocks_trace:
  "\<exists>bs s3. write_blocks cmd off len idx buf s
              = (miso s (length (mosi s) + 516 * length bs - 1), s3)
     \<and> bs \<noteq> [] \<and> list_all (data_block cmd) bs
     \<and> mosi s3 = mosi s @ concat bs \<and> miso s3 = miso s \<and> os_time s3 = os_time s
     \<and> list_all (\<lambda>k. miso s (length (mosi s) + 516 * k - 1) AND 0x1f = 0x05) [1..<length bs]"
proof (induction cmd off len idx buf s rule: write_blocks_induct)
  case (step cmd off len idx buf s)
  let ?s6 = "block_sent cmd off len idx buf s"
  let ?res = "miso s (length (mosi s) + 515)"
  let ?amount = "min (BLOCK_LEN - off) len"
  obtain b where b: "data_block cmd b" "mosi ?s6 = mosi s @ b"
    using block_sent_mosi by blast
  show ?case
  proof (cases "?res AND 0x1f = 0x05 \<and> len - ?amount \<noteq> 0")
    case False
    then have "write_blocks cmd off len idx buf s = (?res, ?s6)"
      by (subst write_blocks_step) (auto simp: Let_def)
    then show ?thesis
      using b by (intro exI [where x = "[b]"] exI [where x = ?s6]) (simp add: ac_simps)
  next
    case True
    from step [OF True [THEN conjunct1] True [THEN conjunct2]]
    obtain bs s3 where r:
      "write_blocks cmd 0 (len - ?amount) (idx + ?amount) buf ?s6
         = (miso ?s6 (length (mosi ?s6) + 516 * length bs - 1), s3)"
      "bs \<noteq> []" "list_all (data_block cmd) bs"
      "mosi s3 = mosi ?s6 @ concat bs" "miso s3 = miso ?s6" "os_time s3 = os_time ?s6"
      "list_all (\<lambda>k. miso ?s6 (length (mosi ?s6) + 516 * k - 1) AND 0x1f = 0x05) [1..<length bs]"
      by blast
    have n: "0 < length bs" using r(2) by simp
    have wb: "write_blocks cmd off len idx buf s
               = (miso s (length (mosi s) + 516 * length (b # bs) - 1), s3)"
      using True r(1) n by (subst write_blocks_step) (simp add: Let_def add.assoc)
    have earlier: "list_all (\<lambda>k. miso s (length (mosi s) + 516 * k - 1) AND 0x1f = 0x05)
                     [1..<length (b # bs)]"
      unfolding list_all_iff
    proof
      fix k assume "k \<in> set [1..<length (b # bs)]"
      then have k: "1 \<le> k" "k \<le> length bs" by auto
      show "miso s (length (mosi s) + 516 * k - 1) AND 0x1f = 0x05"
      proof (cases "k = 1")
        case True
        with \<open>?res AND 0x1f = 0x05 \<and> len - ?amount \<noteq> 0\<close> show ?thesis
          by (simp add: add.commute)
      next
        case False
        with k have "k - 1 \<in> set [1..<length bs]" by auto
        with r(7) have "miso ?s6 (length (mosi ?s6) + 516 * (k - 1) - 1) AND 0x1f = 0x05"
          unfolding list_all_iff by blast
        moreover have "length (mosi ?s6) + 516 * (k - 1) - 1 = length (mosi s) + 516 * k - 1"
          using k False by (simp add: algebra_simps)
        ultimately show ?thesis by simp
      qed
    qed
    show ?thesis
      using wb b r(2-6) earlier
      by (intro exI [where x = "b # bs"] exI [where x = s3]) simp
  qed
qed

lemma write_blocks_cfg:
  "g_mmc_cfg (snd (write_blocks cmd off len idx buf s)) = g_mmc_cfg s"
proof (induction cmd off len idx buf s rule: write_blocks_induct)
  case (step cmd off len idx buf s)
  then show ?case
    by (subst write_blocks_step) (simp add: Let_def)
qed

subsection \<open>Initialisation\<close>

lemma replicate_75: "x # replicate 74 x = replicate 75 x"
proof -
  have "(75::nat) = Suc 74" by simp
  then show ?thesis by (simp only: replicate_Suc)
qed

lemma mmc_init_powered_fields [simp]:
  "g_mmc_cfg (mmc_init_powered tps spi_n cfg pin s) = mmc_handle spi_n cfg pin"
  "mosi (mmc_init_powered tps spi_n cfg pin s) = mosi s @ replicate 75 0xff"
  "miso (mmc_init_powered tps spi_n cfg pin s) = miso s"
  "os_time (mmc_init_powered tps spi_n cfg pin s) = os_time s + of_nat (tps div 100)"
  "gpio (mmc_init_powered tps spi_n cfg pin s) = (gpio s)(pin := False)"
  by (simp_all add: mmc_init_powered_def mmc_init_clocks_sent hal_spi_tx_val_eq mmc_handle_def
        hal_gpio_init_out_def replicate_75)

lemma mmc_init_handle:
  "mmc_init tps spi_n cfg pin s = Some (rc, s') \<Longrightarrow> g_mmc_cfg s' = mmc_handle spi_n cfg pin"
  unfolding mmc_init_def Let_def
  by (auto simp: mmc_handle_def mmc_init_clocks_sent hal_spi_tx_val_eq hal_gpio_init_out_def
           split: if_splits prod.splits option.splits
           dest!: send_mmc_cmd_cfg read_cmd_resp_cfg wait_leave_idle_cfg)

lemma mmc_init_negotiation:
  assumes "mmc_init_negotiates tps spi_n cfg pin s resp s3"
  shows "mmc_init tps spi_n cfg pin s =
     (case wait_leave_idle tps (os_time s3 + of_nat tps) s3 of
        None \<Rightarrow> None
      | Some (status41, s4) \<Rightarrow>
          if status41 \<noteq> 0
          then Some (mmc_error_by_status status41, hal_gpio_write pin True s4)
          else Some (MMC_OK,
                 hal_gpio_write pin True
                   (snd (read_cmd_resp 0 resp (snd (send_mmc_cmd CMD58 0 s4))))))"
  using assms
  unfolding mmc_init_negotiates_def mmc_init_def mmc_init_powered_def Let_def
  by (auto simp: hal_rc_def os_time_get_def hal_gpio_init_out_def
           split: prod.splits option.splits)

lemma wait_leave_idle_stuck:
  assumes tps: "10 \<le> tps" and nw: "unat tmo + tps div 10 < 2 ^ 32"
  shows "\<forall>n \<ge> length (mosi s). miso s n AND R_IDLE \<noteq> 0 \<Longrightarrow>
         \<exists>st s'. wait_leave_idle tps tmo s = Some (st, s') \<and> st AND R_IDLE \<noteq> 0
            \<and> tmo < os_time s'
            \<and> unat (os_time s') \<le> max (unat (os_time s)) (unat tmo + tps div 10)"
proof (induction "Suc (unat tmo) - unat (os_time s)" arbitrary: s rule: less_induct)
  case less
  obtain xs where xs: "xs \<noteq> []"
    "send_mmc_cmd ACMD41 HCS s = (miso s (length (mosi s) + length xs - 1), sent xs s)"
    using send_mmc_cmd_sent by blast
  let ?st = "miso s (length (mosi s) + length xs - 1)"
  let ?s2 = "os_time_delay (tps div 10) (sent xs s)"
  have d: "0 < tps div 10" using tps by (simp add: div_greater_zero_iff)
  have idle: "?st AND R_IDLE \<noteq> 0"
    using less.prems xs(1) by (cases xs) auto
  show ?case
  proof (cases "os_time s > tmo")
    case True
    then have "wait_leave_idle tps tmo s = Some (?st, sent xs s)"
      by (subst wait_leave_idle.simps) (simp add: xs(2) os_time_get_def)
    with idle True show ?thesis by auto
  next
    case False
    then have le: "unat (os_time s) \<le> unat tmo" by (simp add: word_less_nat_alt)
    then have t2: "unat (os_time ?s2) = unat (os_time s) + tps div 10"
      using nw by (simp add: os_time_delay_unat)
    then have lt: "Suc (unat tmo) - unat (os_time ?s2) < Suc (unat tmo) - unat (os_time s)"
      using d le by simp
    have fut: "\<forall>n \<ge> length (mosi ?s2). miso ?s2 n AND R_IDLE \<noteq> 0"
      using less.prems by simp
    from less.hyps [OF lt fut] obtain st s' where r:
      "wait_leave_idle tps tmo ?s2 = Some (st, s')" "st AND R_IDLE \<noteq> 0"
      "tmo < os_time s'"
      "unat (os_time s') \<le> max (unat (os_time ?s2)) (unat tmo + tps div 10)"
      by blast
    have "wait_leave_idle tps tmo s = Some (st, s')"
      using False idle r(1) by (subst wait_leave_idle.simps) (simp add: xs(2) os_time_get_def)
    moreover have "unat (os_time s') \<le> max (unat (os_time s)) (unat tmo + tps div 10)"
      using r(4) t2 le by simp
    ultimately show ?thesis using r(2,3) by blast
  qed
qed

lemma wait_leave_idle_never:
  assumes "\<forall>n \<ge> length (mosi s). miso s n AND R_IDLE \<noteq> 0"
  shows "wait_leave_idle tps (- 1) s = None"
proof -
  let ?P = "\<lambda>(tps::nat) (tmo::os_time_t) s (y::u8 \<times> hw).
     tmo = - 1 \<longrightarrow> \<not> (\<forall>n \<ge> length (mosi s). miso s n AND R_IDLE \<noteq> 0)"
  have "?P tps (- 1) s y" if "wait_leave_idle tps (- 1) s = Some y" for y
  proof (rule wait_leave_idle.raw_induct [where P = ?P])
    show "wait_leave_idle tps (- 1) s = Some y" by fact
  next
    fix wl :: "nat \<Rightarrow> os_time_t \<Rightarrow> hw \<Rightarrow> (u8 \<times> hw) option" and tps tmo s y
    assume IH: "\<And>tps tmo s y. wl tps tmo s = Some y \<Longrightarrow> ?P tps tmo s y"
      and eq: "(case send_mmc_cmd ACMD41 HCS s of
        (status, s1) \<Rightarrow>
          if status AND R_IDLE = 0 \<or> os_time_get s1 > tmo then Some (status, s1)
          else wl tps tmo (os_time_delay (tps div 10) s1)) = Some y"
    show "?P tps tmo s y"
    proof (intro impI notI)
      assume tmo: "tmo = - 1"
        and fut: "\<forall>n \<ge> length (mosi s). miso s n AND R_IDLE \<noteq> 0"
      obtain xs where xs: "xs \<noteq> []"
        "send_mmc_cmd ACMD41 HCS s = (miso s (length (mosi s) + length xs - 1), sent xs s)"
        using send_mmc_cmd_sent by blast
      let ?s2 = "os_time_delay (tps div 10) (sent xs s)"
      have idle: "miso s (length (mosi s) + length xs - 1) AND R_IDLE \<noteq> 0"
        using fut xs(1) by (cases xs) auto
      have "\<not> os_time_get (sent xs s) > tmo" unfolding tmo by simp
      with eq idle have "wl tps tmo ?s2 = Some y" by (simp add: xs(2))
      from IH [OF this] tmo have "\<not> (\<forall>n \<ge> length (mosi ?s2). miso ?s2 n AND R_IDLE \<noteq> 0)"
        by simp
      moreover have "\<forall>n \<ge> length (mosi ?s2). miso ?s2 n AND R_IDLE \<noteq> 0"
        using fut by simp
      ultimately show False by contradiction
    qed
  qed
  with assms show ?thesis by (cases "wait_leave_idle tps (- 1) s") auto
qed

subsection \<open>Chip-select and the handle across a transfer\<close>

lemma send_mmc_cmd_snd_cfg [simp]: "g_mmc_cfg (snd (send_mmc_cmd c p s)) = g_mmc_cfg s"
  using send_mmc_cmd_sent [of c p s] by auto

lemma read_blocks_cfgD:
  "read_blocks bc off len idx buf s = (b, s1) \<Longrightarrow> g_mmc_cfg s1 = g_mmc_cfg s"
  using read_blocks_cfg [of bc off len idx buf s] by simp

lemma write_blocks_cfgD:
  "write_blocks cmd off len idx buf s = (t, s1) \<Longrightarrow> g_mmc_cfg s1 = g_mmc_cfg s"
  using write_blocks_cfg [of cmd off len idx buf s] by simp

lemma mmc_write_data_cfg:
  "mmc_write_data tps mmc bc ba off buf len s = Some (rc, s') \<Longrightarrow> g_mmc_cfg s' = g_mmc_cfg s"
  unfolding mmc_write_data_def Let_def
  by (auto simp: hal_spi_tx_val_eq split: prod.splits option.splits if_splits
           dest!: send_mmc_cmd_cfg wait_not_busy_cfg write_blocks_cfgD)

lemma mmc_read_cfg:
  "mmc_read tps mmc_id addr buf len s = Some (rc, buf', s') \<Longrightarrow> g_mmc_cfg s' = g_mmc_cfg s"
  unfolding mmc_read_def Let_def mmc_cfg_dev_def
  by (auto simp: hal_spi_tx_val_eq split: prod.splits option.splits if_splits
           dest!: send_mmc_cmd_cfg wait_token_cfg read_blocks_cfgD)

lemma mmc_write_cfg:
  "mmc_write tps mmc_id addr buf len s = Some (rc, s') \<Longrightarrow> g_mmc_cfg s' = g_mmc_cfg s"
  unfolding mmc_write_def Let_def mmc_cfg_dev_def
  by (auto simp: hal_spi_tx_val_eq read_block_loop_eq split: prod.splits option.splits if_splits
           dest!: send_mmc_cmd_cfg wait_token_cfg mmc_write_data_cfg)

lemma mmc_init_released:
  "mmc_init tps spi_n cfg pin s = Some (rc, s') \<Longrightarrow> gpio s' pin"
  unfolding mmc_init_def Let_def
  by (auto simp: hal_gpio_init_out_def split: if_splits prod.splits option.splits)

lemma mmc_write_data_released:
  "mmc_write_data tps mmc bc ba off buf len s = Some (rc, s') \<Longrightarrow> gpio s' (ss_pin mmc)"
  unfolding mmc_write_data_def Let_def
  by (auto split: prod.splits option.splits if_splits)

lemma mmc_read_released:
  "mmc_read tps 0 addr buf len s = Some (rc, buf', s') \<Longrightarrow> gpio s' (ss_pin (g_mmc_cfg s))"
  unfolding mmc_read_def Let_def mmc_cfg_dev_def
  by (auto split: prod.splits option.splits if_splits)

lemma mmc_write_released:
  "mmc_write tps 0 addr buf len s = Some (rc, s') \<Longrightarrow> gpio s' (ss_pin (g_mmc_cfg s))"
  unfolding mmc_write_def Let_def mmc_cfg_dev_def
  by (auto split: prod.splits option.splits if_splits dest!: mmc_write_data_released)

lemma mmc_read_bad_id:
  "mmc_id \<noteq> 0 \<Longrightarrow> mmc_read tps mmc_id addr buf len s = Some (MMC_DEVICE_ERROR, buf, s)"
  by (simp add: mmc_read_def mmc_cfg_dev_def)

lemma mmc_write_bad_id:
  "mmc_id \<noteq> 0 \<Longrightarrow> mmc_write tps mmc_id addr buf len s = Some (MMC_DEVICE_ERROR, s)"
  by (simp add: mmc_write_def mmc_cfg_dev_def)

subsection \<open>One block at a time\<close>

lemma block_read_fields [simp]:
  "g_mmc_cfg (block_read s) = g_mmc_cfg s"
  "gpio (block_read s) = gpio s"
  "miso (block_read s) = miso s"
  "os_time (block_read s) = os_time s"
  "mosi (block_read s) = mosi s @ replicate 514 0xff"
  "g_block_buf (block_read s) =
     (\<lambda>i. if i < 512 then miso s (length (mosi s) + i) else g_block_buf s i)"
  by (simp_all add: block_read_def)

lemma replicate_514: "replicate 512 x @ [x, x] = replicate 514 x"
proof -
  have "replicate 512 x @ replicate 2 x = replicate (512 + 2) x"
    by (rule replicate_add [symmetric])
  then show ?thesis by (simp add: numeral_2_eq_2)
qed

lemma block_read_eq:
  "snd (hal_spi_tx_val 0xff (snd (hal_spi_tx_val 0xff (read_block_loop 0 s)))) = block_read s"
  by (intro hw.equality)
     (simp_all add: hal_spi_tx_val_eq read_block_loop_eq block_read_def replicate_514
        cong: if_cong)

lemma read_blocks_0: "read_blocks 0 off len idx buf s = (buf, s)"
  by (subst read_blocks.simps) simp

lemma read_blocks_step:
  "bc \<noteq> 0 \<Longrightarrow>
   read_blocks bc off len idx buf s =
     read_blocks (bc - 1) 0 (len - min (BLOCK_LEN - off) len) (idx + min (BLOCK_LEN - off) len)
       (memcpy buf (unat idx) (g_block_buf (block_read s)) (unat off)
          (unat (min (BLOCK_LEN - off) len)))
       (block_read s)"
  by (subst read_blocks.simps) (simp only: Let_def block_read_eq if_False)

lemma send_mmc_cmd_plain_wire:
  assumes "cmd AND 0x80 = 0"
  shows "\<exists>k. 1 \<le> k \<and> k \<le> 255 \<and>
           snd (send_mmc_cmd cmd p s) = sent (command_frame cmd p @ replicate k 0xff) s"
  using send_mmc_cmd_result [of cmd p s] assms by auto

lemma memcpy_0 [simp]: "memcpy dst di src si 0 = dst"
  by (auto simp: memcpy_def fun_eq_iff)

subsection \<open>Running the driver on a simulated card\<close>

lemma board_fields [simp]:
  "g_mmc_cfg (board sd) = \<lparr>spi_num = 0, ss_pin = 0, spi_cfg = 0, settings = None\<rparr>"
  "g_block_buf (board sd) = (\<lambda>i. 0)"
  "gpio (board sd) = (\<lambda>pin. False)"
  "mosi (board sd) = []"
  "miso (board sd) = sd"
  "os_time (board sd) = 0"
  "spi_init_rc (board sd) = 0"
  "spi_config_rc (board sd) = 0"
  by (simp_all add: board_def)

lemma board_at_fields [simp]:
  "g_mmc_cfg (board_at t sd) = \<lparr>spi_num = 0, ss_pin = 0, spi_cfg = 0, settings = None\<rparr>"
  "g_block_buf (board_at t sd) = (\<lambda>i. 0)"
  "gpio (board_at t sd) = (\<lambda>pin. False)"
  "mosi (board_at t sd) = []"
  "miso (board_at t sd) = sd"
  "os_time (board_at t sd) = t"
  "spi_init_rc (board_at t sd) = 0"
  "spi_config_rc (board_at t sd) = 0"
  by (simp_all add: board_at_def)

lemma length_command_frame [simp]: "length (command_frame cmd p) = 6"
  by (simp add: command_frame_def)

lemma cmd_poll_first:
  "miso s (length (mosi s)) AND 0x80 = 0 \<Longrightarrow>
   cmd_poll 255 st s = (miso s (length (mosi s)), sent [0xff] s)"
proof -
  assume a: "miso s (length (mosi s)) AND 0x80 = 0"
  have n: "(255::nat) = Suc 254" by simp
  have "cmd_poll (Suc 254) st s = (miso s (length (mosi s)), sent [0xff] s)"
    using a by (simp only: cmd_poll.simps hal_spi_tx_val_eq prod.case) simp
  then show ?thesis by (simp only: n)
qed

lemma send_mmc_cmd_plain_first:
  assumes "cmd AND 0x80 = 0" and "miso s (length (mosi s) + 6) AND 0x80 = 0"
  shows "send_mmc_cmd cmd p s = (miso s (length (mosi s) + 6), sent (command_frame cmd p @ [0xff]) s)"
  using assms by (simp add: send_mmc_cmd_unfold cmd_poll_first)

lemma send_mmc_cmd_app_first:
  assumes "cmd AND 0x80 \<noteq> 0" and "miso s (length (mosi s) + 6) AND 0x80 = 0"
    and "miso s (length (mosi s) + 13) AND 0x80 = 0"
  shows "send_mmc_cmd cmd p s =
           (miso s (length (mosi s) + 13),
            sent (command_frame CMD55 0 @ [0xff] @ command_frame cmd p @ [0xff]) s)"
  using assms by (simp add: send_mmc_cmd_unfold cmd_poll_first add.assoc)

lemma wait_token_first:
  "miso s (length (mosi s)) \<noteq> 0xFF \<Longrightarrow>
   wait_token tps tmo s = Some (miso s (length (mosi s)), sent [0xff] s)"
  by (subst wait_token.simps) (simp add: hal_spi_tx_val_eq)

lemma wait_not_busy_first:
  "miso s (length (mosi s)) \<noteq> 0 \<Longrightarrow>
   wait_not_busy tps tmo s = Some (miso s (length (mosi s)), sent [0xff] s)"
  by (subst wait_not_busy.simps) (simp add: hal_spi_tx_val_eq)

lemma wait_not_busy_again:
  "miso s (length (mosi s)) = 0 \<Longrightarrow> os_time s + of_nat (tps div 100) < tmo \<Longrightarrow>
   wait_not_busy tps tmo s = wait_not_busy tps tmo (os_time_delay (tps div 100) (sent [0xff] s))"
  by (subst wait_not_busy.simps) (simp add: hal_spi_tx_val_eq Let_def os_time_get_def)

lemma wait_leave_idle_exit:
  "send_mmc_cmd ACMD41 HCS s = (st, s1) \<Longrightarrow> st AND R_IDLE = 0 \<or> tmo < os_time s1 \<Longrightarrow>
   wait_leave_idle tps tmo s = Some (st, s1)"
  by (subst wait_leave_idle.simps) (auto simp: os_time_get_def)

lemma wait_leave_idle_again:
  "send_mmc_cmd ACMD41 HCS s = (st, s1) \<Longrightarrow> st AND R_IDLE \<noteq> 0 \<Longrightarrow> \<not> tmo < os_time s1 \<Longrightarrow>
   wait_leave_idle tps tmo s = wait_leave_idle tps tmo (os_time_delay (tps div 10) s1)"
  by (subst wait_leave_idle.simps) (auto simp: os_time_get_def)

lemma negotiated_fields [simp]:
  "length (mosi (negotiated tps spi_n cfg pin sd)) = 93"
  "miso (negotiated tps spi_n cfg pin sd) = sd"
  "os_time (negotiated tps spi_n cfg pin sd) = of_nat (tps div 100)"
  by (simp_all add: negotiated_def)

lemma negotiates_eval:
  assumes "mosi s = []" "spi_init_rc s = 0" "spi_config_rc s = 0"
    and "miso s 81 = 0x01" "miso s 88 AND 0x80 = 0" "miso s 88 AND 0x04 = 0"
    "miso s 91 = 0x01" "miso s 92 = 0xAA"
  shows "mmc_init_negotiates tps spi_n cfg pin s
           [miso s 89, miso s 90, miso s 91, miso s 92]
           (sent (command_frame CMD0 0 @ [0xff] @ command_frame CMD8 0x1AA @ [0xff]
                    @ replicate 4 0xff)
              (mmc_init_powered tps spi_n cfg pin s))"
proof -
  let ?sf = "mmc_init_powered tps spi_n cfg pin s"
  have c0: "send_mmc_cmd CMD0 0 ?sf = (R_IDLE, sent (command_frame CMD0 0 @ [0xff]) ?sf)"
    by (subst send_mmc_cmd_plain_first) (simp_all add: cmd_defs assms r1_defs)
  let ?s1 = "sent (command_frame CMD0 0 @ [0xff]) ?sf"
  have c8: "send_mmc_cmd CMD8 0x1AA ?s1
              = (miso s 88, sent (command_frame CMD8 0x1AA @ [0xff]) ?s1)"
    by (subst send_mmc_cmd_plain_first) (simp_all add: cmd_defs assms)
  let ?s2 = "sent (command_frame CMD8 0x1AA @ [0xff]) ?s1"
  have rr: "read_cmd_resp 0 [0, 0, 0, 0] ?s2 =
              ([miso s 89, miso s 90, miso s 91, miso s 92],
               sent (command_frame CMD0 0 @ [0xff] @ command_frame CMD8 0x1AA @ [0xff]
                       @ replicate 4 0xff) ?sf)"
    using read_cmd_resp_eq [of "[0, 0, 0, 0]" ?s2]
    by (simp add: assms)
  show ?thesis
    unfolding mmc_init_negotiates_def
    by (simp add: c0 c8 rr assms r1_defs del: sent_sent)
qed

subsection \<open>Runs on the simulated cards\<close>

lemma sim_negotiates:
  "mmc_init_negotiates 1000 0 0 5 (board (sim_card ocr)) [0, 0, 1, 0xAA]
     (negotiated 1000 0 0 5 (sim_card ocr))"
  using negotiates_eval [of "board (sim_card ocr)" 1000 0 0 5]
  by (simp add: sim_card_def negotiated_def)

lemma sim_acmd41:
  assumes "miso s = sim_card ocr" and "length (mosi s) = n" and "n = 93 \<or> n = 107 \<or> n = 121"
  shows "send_mmc_cmd ACMD41 HCS s =
           (if n = 121 then 0 else 1,
            sent (command_frame CMD55 0 @ [0xff] @ command_frame ACMD41 HCS @ [0xff]) s)"
  using assms
  by (subst send_mmc_cmd_app_first) (auto simp: sim_card_def ACMD41_def)

lemma sim_leave_idle:
  "\<exists>s4. wait_leave_idle 1000 1010 (negotiated 1000 0 0 5 (sim_card ocr)) = Some (0, s4)
        \<and> length (mosi s4) = 135 \<and> miso s4 = sim_card ocr"
proof -
  let ?x = "command_frame CMD55 0 @ [0xff] @ command_frame ACMD41 HCS @ [0xff]"
  let ?s3 = "negotiated 1000 0 0 5 (sim_card ocr)"
  let ?sa = "os_time_delay (1000 div 10) (sent ?x ?s3)"
  let ?sb = "os_time_delay (1000 div 10) (sent ?x ?sa)"
  have 1: "wait_leave_idle 1000 1010 ?s3 = wait_leave_idle 1000 1010 ?sa"
    by (rule wait_leave_idle_again [OF sim_acmd41 [where n = 93 and ocr = ocr]])
       (simp_all add: R_IDLE_def)
  have 2: "wait_leave_idle 1000 1010 ?sa = wait_leave_idle 1000 1010 ?sb"
    by (rule wait_leave_idle_again [OF sim_acmd41 [where n = 107 and ocr = ocr]])
       (simp_all add: R_IDLE_def)
  have 3: "wait_leave_idle 1000 1010 ?sb = Some (0, sent ?x ?sb)"
    using wait_leave_idle_exit [OF sim_acmd41 [where n = 121 and ocr = ocr and s = ?sb], of 1010 1000]
    by (simp add: R_IDLE_def)
  show ?thesis
  proof (intro exI conjI)
    show "wait_leave_idle 1000 1010 ?s3 = Some (0, sent ?x ?sb)"
      by (simp only: 1 2 3)
    show "length (mosi (sent ?x ?sb)) = 135" by simp
    show "miso (sent ?x ?sb) = sim_card ocr" by simp
  qed
qed

lemma sim_init:
  "\<exists>s'. mmc_init 1000 0 0 5 (board (sim_card ocr)) = Some (MMC_OK, s')
        \<and> length (mosi s') = 146"
proof -
  obtain s4 where s4: "wait_leave_idle 1000 1010 (negotiated 1000 0 0 5 (sim_card ocr)) = Some (0, s4)"
    "length (mosi s4) = 135" "miso s4 = sim_card ocr"
    using sim_leave_idle by blast
  have c58: "send_mmc_cmd CMD58 0 s4 = (0, sent (command_frame CMD58 0 @ [0xff]) s4)"
    by (subst send_mmc_cmd_plain_first) (simp_all add: s4 sim_card_def CMD58_def)
  show ?thesis
    by (simp add: mmc_init_negotiation [OF sim_negotiates] s4 c58 read_cmd_resp_snd)
qed

lemma sim_init_handle:
  "map_option (apsnd g_mmc_cfg) (mmc_init 1000 0 0 5 (board (sim_card ocr)))
     = Some (MMC_OK, mmc_handle 0 0 5)"
proof -
  obtain s' where run: "mmc_init 1000 0 0 5 (board (sim_card ocr)) = Some (MMC_OK, s')"
    using sim_init by blast
  from mmc_init_handle [OF run] run show ?thesis by simp
qed

lemma sim_init_length:
  "map_option (length \<circ> mosi \<circ> snd) (mmc_init 1000 0 0 5 (board (sim_card ocr))) = Some 146"
  using sim_init [of ocr] by auto

lemma idle_negotiates:
  "mmc_init_negotiates 1000 0 0 5 (board idle_card) [1, 1, 1, 0xAA]
     (negotiated 1000 0 0 5 idle_card)"
  using negotiates_eval [of "board idle_card" 1000 0 0 5]
  by (simp add: idle_card_def negotiated_def)

subsection \<open>Read and write runs\<close>

lemma read_card_cmd:
  assumes "cmd AND 0x80 = 0"
  shows "send_mmc_cmd cmd 0 (hal_gpio_write 0 False (board read_card))
           = (0, sent (command_frame cmd 0 @ [0xff]) (hal_gpio_write 0 False (board read_card)))"
  using assms by (subst send_mmc_cmd_plain_first) (simp_all add: read_card_def)

lemma read_card_token:
  "wait_token tps tmo (sent (command_frame cmd 0 @ [0xff]) (hal_gpio_write 0 False (board read_card)))
     = Some (0xFE, sent [0xff] (sent (command_frame cmd 0 @ [0xff])
                                  (hal_gpio_write 0 False (board read_card))))"
  by (subst wait_token_first) (simp_all add: read_card_def)

lemma read_card_run_512:
  "\<exists>s'. mmc_read 1000 0 100 buf 512 (board read_card)
          = Some (MMC_OK, (\<lambda>i. if i < 412 then of_nat (108 + i) else buf i), s')
        \<and> mosi s' = command_frame CMD17 0 @ replicate 516 0xff"
proof -
  let ?s0 = "hal_gpio_write 0 False (board read_card)"
  let ?s1 = "sent (command_frame CMD17 0 @ [0xff]) ?s0"
  let ?s2 = "sent [0xff] ?s1"
  have cmd: "send_mmc_cmd CMD17 0 ?s0 = (0, ?s1)"
    by (rule read_card_cmd) (simp add: CMD17_def)
  have tok: "wait_token tps tmo ?s1 = Some (0xFE, ?s2)" for tps tmo
    by (rule read_card_token)
  have cnt: "((512::size_t) + BLOCK_LEN - 1 AND NOT (BLOCK_LEN - 1)) div BLOCK_LEN = 1"
    by (simp add: BLOCK_LEN_def)
  have off: "(100::u32) - 100 div BLOCK_LEN * BLOCK_LEN = 100"
    by (simp add: BLOCK_LEN_def)
  have ba: "(100::u32) div BLOCK_LEN = 0"
    by (simp add: BLOCK_LEN_def)
  have ne: "CMD17 \<noteq> CMD18"
    by (simp add: cmd_defs)
  have blocks: "read_blocks 1 100 512 0 buf ?s2 =
                  (memcpy buf 0 (g_block_buf (block_read ?s2)) 100 412, block_read ?s2)"
    by (subst read_blocks_step) (simp_all add: BLOCK_LEN_def read_blocks_0 del: sent_sent)
  have buf': "memcpy buf 0 (g_block_buf (block_read ?s2)) 100 412
                = (\<lambda>i. if i < 412 then of_nat (108 + i) else buf i)"
    by (auto simp: memcpy_def fun_eq_iff read_card_def add.assoc)
  have r516: "(0xff::u8) # 0xff # replicate 514 0xff = replicate 516 0xff"
  proof -
    have "(516::nat) = Suc (Suc 514)" by simp
    then show ?thesis by (simp only: replicate_Suc)
  qed
  have run: "mmc_read 1000 0 100 buf 512 (board read_card)
               = Some (MMC_OK, memcpy buf 0 (g_block_buf (block_read ?s2)) 100 412,
                       hal_gpio_write 0 True (block_read ?s2))"
    unfolding mmc_read_def mmc_cfg_dev_def Let_def cnt off ba
    by (simp add: cmd tok blocks ne del: sent_sent)
  show ?thesis
  proof (intro exI conjI)
    show "mmc_read 1000 0 100 buf 512 (board read_card)
            = Some (MMC_OK, (\<lambda>i. if i < 412 then of_nat (108 + i) else buf i),
                    hal_gpio_write 0 True (block_read ?s2))"
      by (simp only: run buf')
    show "mosi (hal_gpio_write 0 True (block_read ?s2))
            = command_frame CMD17 0 @ replicate 516 0xff"
      using r516 by simp
  qed
qed

lemma idle_card_read_rejected:
  "\<exists>b s'. mmc_read 1000 0 0 buf 512 (board idle_card) = Some (MMC_CARD_ERROR, b, s')"
proof -
  let ?s0 = "hal_gpio_write 0 False (board idle_card)"
  have cmd: "send_mmc_cmd CMD17 0 ?s0 = (1, sent (command_frame CMD17 0 @ [0xff]) ?s0)"
    by (subst send_mmc_cmd_plain_first) (simp_all add: idle_card_def CMD17_def)
  have cnt: "((512::size_t) + BLOCK_LEN - 1 AND NOT (BLOCK_LEN - 1)) div BLOCK_LEN = 1"
    by (simp add: BLOCK_LEN_def)
  have ba: "(0::u32) div BLOCK_LEN = 0"
    by simp
  show ?thesis
    unfolding mmc_read_def mmc_cfg_dev_def Let_def cnt ba
    by (simp add: cmd)
qed

lemma write_card_cmd:
  assumes "cmd AND 0x80 = 0"
  shows "send_mmc_cmd cmd 0 (hal_gpio_write 0 False (board (write_card tok)))
           = (0, sent (command_frame cmd 0 @ [0xff])
                   (hal_gpio_write 0 False (board (write_card tok))))"
  using assms by (subst send_mmc_cmd_plain_first) (simp_all add: write_card_def)

lemma write_card_not_busy:
  assumes "miso s = write_card tok" and "length (mosi s) = 524" and "os_time s = 0"
  shows "\<exists>s4. wait_not_busy 1000 5000 s = Some (0xFF, s4)"
proof -
  have 1: "wait_not_busy 1000 5000 s
             = wait_not_busy 1000 5000 (os_time_delay (1000 div 100) (sent [0xff] s))"
    by (rule wait_not_busy_again) (simp_all add: assms write_card_def)
  have 2: "wait_not_busy 1000 5000 (os_time_delay (1000 div 100) (sent [0xff] s))
             = Some (0xFF, sent [0xff] (os_time_delay (1000 div 100) (sent [0xff] s)))"
    by (subst wait_not_busy_first) (simp_all add: assms write_card_def)
  show ?thesis by (simp only: 1 2) blast
qed

lemma write_card_run:
  "\<exists>s'. mmc_write 1000 0 0 buf 512 (board (write_card tok)) = Some (write_status tok, s')"
proof -
  let ?s0 = "hal_gpio_write 0 False (board (write_card tok))"
  let ?s1 = "sent (command_frame CMD24 0 @ [0xff]) ?s0"
  let ?s2 = "sent [0xff] ?s1"
  let ?s3 = "block_sent CMD24 0 512 0 buf ?s2"
  have cmd: "send_mmc_cmd CMD24 0 ?s0 = (0, ?s1)"
    by (rule write_card_cmd) (simp add: CMD24_def)
  have loop: "write_blocks CMD24 0 512 0 buf ?s2 = (tok, ?s3)"
    by (subst write_blocks_step) (simp add: Let_def BLOCK_LEN_def write_card_def del: sent_sent)
  obtain s4 where nb: "wait_not_busy 1000 5000 ?s3 = Some (0xFF, s4)"
    using write_card_not_busy [of ?s3 tok] by auto
  have cnt: "((512::size_t) + BLOCK_LEN - 1 AND NOT (BLOCK_LEN - 1)) div BLOCK_LEN = 1"
    by (simp add: BLOCK_LEN_def)
  have ba: "(0::u32) div BLOCK_LEN = 0" "(0::u32) - 0 * BLOCK_LEN = 0"
    by simp_all
  have data: "mmc_write_data 1000 (g_mmc_cfg (board (write_card tok))) 1 0 0 buf 512 ?s0
                = Some (write_status tok, hal_gpio_write 0 True s4)"
    unfolding mmc_write_data_def Let_def
    by (simp add: cmd hal_spi_tx_val_eq loop os_time_get_def nb del: sent_sent)
  show ?thesis
    unfolding mmc_write_def mmc_cfg_dev_def Let_def cnt ba
    using data by simp
qed

lemma write_status_eval [simp]:
  "write_status 0xE5 = MMC_OK" "write_status 0xEB = MMC_CRC_ERROR"
  "write_status 0xED = MMC_WRITE_ERROR"
  by (simp_all add: write_status_def)

subsection \<open>The idle wait and the tick counter\<close>

text \<open>
  While the deadline and one more sleep fit below the wrap of the tick counter, a card
  that stays idle is given up one sleep after the deadline at the latest. A deadline
  of \<open>0xFFFFFFFF\<close> is never passed.
\<close>

lemma mmc_init_idle_before_wrap:
  assumes "10 \<le> tps"
    and nowrap: "unat (os_time s3) + tps + tps div 10 < 2 ^ 32"
    and "mmc_init_negotiates tps spi_n cfg pin s resp s3"
    and "\<forall>n \<ge> length (mosi s3). miso s3 n AND R_IDLE \<noteq> 0"
  shows "\<exists>st s4. wait_leave_idle tps (os_time s3 + of_nat tps) s3 = Some (st, s4)
           \<and> st AND R_IDLE \<noteq> 0
           \<and> unat (os_time s3) + tps < unat (os_time s4)
           \<and> unat (os_time s4) \<le> unat (os_time s3) + tps + tps div 10
           \<and> mmc_init tps spi_n cfg pin s
               = Some (mmc_error_by_status st, hal_gpio_write pin True s4)
           \<and> mmc_error_by_status st = MMC_TIMEOUT"
proof -
  have tmo: "unat (os_time s3 + of_nat tps) = unat (os_time s3) + tps"
    using nowrap by (simp add: os_time_delay_unat)
  then have nw: "unat (os_time s3 + of_nat tps) + tps div 10 < 2 ^ 32"
    using nowrap by simp
  from wait_leave_idle_stuck [OF assms(1) nw assms(4)]
  obtain st s4 where r: "wait_leave_idle tps (os_time s3 + of_nat tps) s3 = Some (st, s4)"
    "st AND R_IDLE \<noteq> 0" "os_time s3 + of_nat tps < os_time s4"
    "unat (os_time s4) \<le> max (unat (os_time s3)) (unat (os_time s3 + of_nat tps) + tps div 10)"
    by blast
  have nz: "st \<noteq> 0" using r(2) by auto
  have cls: "mmc_error_by_status st = MMC_TIMEOUT"
    using r(2) nz by (simp add: mmc_error_by_status_def)
  have run: "mmc_init tps spi_n cfg pin s
               = Some (mmc_error_by_status st, hal_gpio_write pin True s4)"
    using nz by (simp add: mmc_init_negotiation [OF assms(3)] r(1))
  have "unat (os_time s3) + tps < unat (os_time s4)"
    using r(3) tmo by (simp add: word_less_nat_alt)
  moreover have "unat (os_time s4) \<le> unat (os_time s3) + tps + tps div 10"
    using r(4) tmo by simp
  ultimately show ?thesis using r(1,2) run cls by blast
qed

lemma idle_card_times_out:
  "\<exists>s'. mmc_init 1000 0 0 5 (board idle_card) = Some (MMC_TIMEOUT, s')
        \<and> 1010 < unat (os_time s') \<and> unat (os_time s') \<le> 1110"
proof -
  have tps: "(10::nat) \<le> 1000" by simp
  have nw: "unat (os_time (negotiated 1000 0 0 5 idle_card)) + 1000 + 1000 div 10 < 2 ^ 32"
    by simp
  have stuck: "\<forall>n \<ge> length (mosi (negotiated 1000 0 0 5 idle_card)).
                 miso (negotiated 1000 0 0 5 idle_card) n AND R_IDLE \<noteq> 0"
    by (simp add: idle_card_def R_IDLE_def)
  from mmc_init_idle_before_wrap [OF tps nw idle_negotiates stuck]
  show ?thesis by auto
qed

lemma mmc_init_deadline_never_passed:
  assumes "mmc_init_negotiates tps spi_n cfg pin s resp s3"
    and "os_time s3 + of_nat tps = - 1"
    and "\<forall>n \<ge> length (mosi s3). miso s3 n AND R_IDLE \<noteq> 0"
  shows "mmc_init tps spi_n cfg pin s = None"
  using wait_leave_idle_never [OF assms(3), of tps]
  by (simp add: mmc_init_negotiation [OF assms(1)] assms(2))

subsection \<open>The write loop within a call\<close>

lemma mmc_write_enters_loop:
  assumes run: "mmc_write tps mmc_id addr buf len s = Some (rc, s')"
    and "rc \<noteq> MMC_DEVICE_ERROR" and "rc \<noteq> MMC_CARD_ERROR"
  shows "\<exists>s0.
      (if addr - addr div BLOCK_LEN * BLOCK_LEN = 0
       then s0 = hal_gpio_write (ss_pin (g_mmc_cfg s)) False s
       else \<exists>r1 r2.
              send_mmc_cmd CMD17 (addr div BLOCK_LEN)
                (hal_gpio_write (ss_pin (g_mmc_cfg s)) False s) = (0, r1)
              \<and> wait_token tps (os_time r1 + of_nat (tps div 5)) r1 = Some (0xFE, r2)
              \<and> s0 = block_read r2)
      \<and> miso s0 = miso s
      \<and> mmc_write_data tps (g_mmc_cfg s)
           (((len + BLOCK_LEN - 1) AND NOT (BLOCK_LEN - 1)) div BLOCK_LEN)
           (addr div BLOCK_LEN) (addr - addr div BLOCK_LEN * BLOCK_LEN) buf len s0
         = Some (rc, s')"
proof -
  let ?pin = "ss_pin (g_mmc_cfg s)"
  let ?off = "addr - addr div BLOCK_LEN * BLOCK_LEN"
  let ?t = "hal_gpio_write ?pin False s"
  from run assms(2) have dev: "mmc_cfg_dev mmc_id s = Some (g_mmc_cfg s)"
    unfolding mmc_write_def mmc_cfg_dev_def by (auto split: if_splits)
  show ?thesis
  proof (cases "?off = 0")
    case True
    with run dev show ?thesis
      unfolding mmc_write_def Let_def by (simp add: hal_gpio_write_def)
  next
    case False
    obtain res r1 where c: "send_mmc_cmd CMD17 (addr div BLOCK_LEN) ?t = (res, r1)"
      by (cases "send_mmc_cmd CMD17 (addr div BLOCK_LEN) ?t")
    from run dev False c assms(3) have res: "res = 0"
      unfolding mmc_write_def Let_def by (auto split: if_splits)
    from run dev False c res assms(3) obtain tok r2 where
      w: "wait_token tps (os_time r1 + of_nat (tps div 5)) r1 = Some (tok, r2)"
      unfolding mmc_write_def Let_def os_time_get_def
      by (auto split: option.splits)
    from run dev False c res w assms(3) have tok: "tok = 0xFE"
      unfolding mmc_write_def Let_def os_time_get_def by (auto split: if_splits)
    from run dev False c res w tok have d: "mmc_write_data tps (g_mmc_cfg s)
           (((len + BLOCK_LEN - 1) AND NOT (BLOCK_LEN - 1)) div BLOCK_LEN)
           (addr div BLOCK_LEN) ?off buf len (block_read r2) = Some (rc, s')"
      unfolding mmc_write_def Let_def os_time_get_def by (simp add: block_read_eq)
    have "miso r1 = miso s"
      using send_mmc_cmd_sent [of CMD17 "addr div BLOCK_LEN" ?t] c by (auto simp: hal_gpio_write_def)
    moreover have "miso r2 = miso r1"
      using wait_token_result [OF w] by auto
    ultimately have "miso (block_read r2) = miso s" by simp
    with False c res w tok d show ?thesis by auto
  qed
qed

section \<open>Claims\<close>

text \<open>
  C1: the block index and the offset are computed as the claim says, but the block
  count is the ceiling of the length alone over 512, without the offset. A read of 512
  bytes at address 100 therefore sends the single-block command \<open>CMD17\<close>, transfers
  one block (516 bytes \<open>0xFF\<close> after the frame: the response, the token, 512 data bytes
  and 2 CRC bytes), and returns \<open>MMC_OK\<close> with the caller's buffer untouched from
  offset 412 on.
\<close>

theorem mmc_read_512_at_100_is_short:
  "\<exists>b s'. mmc_read 1000 0 100 (\<lambda>i. 0xAA) 512 (board read_card) = Some (MMC_OK, b, s')
          \<and> mosi s' = command_frame CMD17 0 @ replicate 516 0xff
          \<and> (\<forall>i. b (412 + i) = 0xAA)"
  using read_card_run_512 [of "\<lambda>i. 0xAA"] by auto

text \<open>
  C2, as the code has it: when \<open>mmc_init\<close> has reached the negotiation and the card has left
  the idle state with status 0, it sends \<open>CMD58\<close> and reads the four bytes of the OCR,
  releases chip-select and returns \<open>MMC_OK\<close>; nothing of the OCR is recorded. The handle
  holds the SPI channel, the chip-select pin, the SPI configuration and the driver's
  settings, whatever the card-capacity-status bit was: it has no addressing-mode flag.
\<close>

theorem mmc_init_ocr_not_recorded:
  assumes "mmc_init_negotiates tps spi_n cfg pin s resp s3"
    and "wait_leave_idle tps (os_time s3 + of_nat tps) s3 = Some (0, s4)"
  shows "\<exists>k s'. 1 \<le> k \<and> k \<le> 255
           \<and> s' = hal_gpio_write pin True
                    (sent (command_frame CMD58 0 @ replicate k 0xff @ replicate 4 0xff) s4)
           \<and> mmc_init tps spi_n cfg pin s = Some (MMC_OK, s')
           \<and> g_mmc_cfg s' = \<lparr>spi_num = spi_n, ss_pin = pin, spi_cfg = cfg,
                                settings = Some mmc_settings\<rparr>"
proof -
  obtain k where k: "1 \<le> k" "k \<le> 255"
    "snd (send_mmc_cmd CMD58 0 s4) = sent (command_frame CMD58 0 @ replicate k 0xff) s4"
    using send_mmc_cmd_result [of CMD58 0 s4] by (auto simp: CMD58_def)
  let ?s' = "hal_gpio_write pin True
               (sent (command_frame CMD58 0 @ replicate k 0xff @ replicate 4 0xff) s4)"
  have run: "mmc_init tps spi_n cfg pin s = Some (MMC_OK, ?s')"
    by (simp add: mmc_init_negotiation [OF assms(1)] assms(2) k(3) read_cmd_resp_snd)
  from mmc_init_handle [OF run] have "g_mmc_cfg ?s' = mmc_handle spi_n cfg pin" .
  with run k(1,2) show ?thesis
    unfolding mmc_handle_def by blast
qed

theorem mmc_init_ocr_not_recorded_witness:
  "\<exists>s'. mmc_init 1000 0 0 5 (board (sim_card 0xC0)) = Some (MMC_OK, s')
        \<and> g_mmc_cfg s' = \<lparr>spi_num = 0, ss_pin = 5, spi_cfg = 0, settings = Some mmc_settings\<rparr>"
proof -
  obtain s4 where s4:
    "wait_leave_idle 1000 1010 (negotiated 1000 0 0 5 (sim_card 0xC0)) = Some (0, s4)"
    using sim_leave_idle by blast
  have wl: "wait_leave_idle 1000 (os_time (negotiated 1000 0 0 5 (sim_card 0xC0)) + of_nat 1000)
              (negotiated 1000 0 0 5 (sim_card 0xC0)) = Some (0, s4)"
    using s4 by simp
  from mmc_init_ocr_not_recorded [OF sim_negotiates wl]
  show ?thesis by blast
qed

text \<open>
  C2 as stated fails on the code: two cards that differ only in the
  card-capacity-status bit of the OCR (exchange 142 of 146, the first of the four payload
  bytes) are both initialised with \<open>MMC_OK\<close> and leave the same handle.
\<close>

theorem mmc_init_ccs_counterexample:
  "map_option (apsnd g_mmc_cfg) (mmc_init 1000 0 0 5 (board (sim_card 0xC0)))
     = map_option (apsnd g_mmc_cfg) (mmc_init 1000 0 0 5 (board (sim_card 0x80)))
   \<and> map_option fst (mmc_init 1000 0 0 5 (board (sim_card 0xC0))) = Some MMC_OK
   \<and> map_option fst (mmc_init 1000 0 0 5 (board (sim_card 0x80))) = Some MMC_OK
   \<and> map_option (length \<circ> mosi \<circ> snd) (mmc_init 1000 0 0 5 (board (sim_card 0xC0))) = Some 146
   \<and> sim_card 0xC0 142 AND 0x40 \<noteq> 0
   \<and> sim_card 0x80 142 AND 0x40 = 0"
proof -
  have ok: "map_option fst (mmc_init 1000 0 0 5 (board (sim_card ocr))) = Some MMC_OK" for ocr
    using sim_init [of ocr] by auto
  show ?thesis
    by (simp add: sim_init_handle sim_init_length ok) (simp add: sim_card_def)
qed

text \<open>
  C3: chip-select is released (its pin is high) when \<open>mmc_init\<close> returns, on every path,
  and when \<open>mmc_read\<close> or \<open>mmc_write\<close> returns, on every path of a valid slot. For an
  invalid slot id \<open>mmc_read\<close> and \<open>mmc_write\<close> return before they assert chip-select:
  they leave the whole state, the pin included, as the caller had it.
\<close>

theorem chip_select_released_on_return:
  "(mmc_init tps spi_n cfg pin s = Some (rc, s') \<longrightarrow> gpio s' (ss_pin (g_mmc_cfg s')))
   \<and> (mmc_read tps rid raddr rbuf rlen rs = Some (rrc, rbuf', rs') \<longrightarrow>
        (if rid = 0 then gpio rs' (ss_pin (g_mmc_cfg rs')) else rs' = rs))
   \<and> (mmc_write tps wid waddr wbuf wlen ws = Some (wrc, ws') \<longrightarrow>
        (if wid = 0 then gpio ws' (ss_pin (g_mmc_cfg ws')) else ws' = ws))"
proof (intro conjI impI)
  assume "mmc_init tps spi_n cfg pin s = Some (rc, s')"
  from mmc_init_released [OF this] mmc_init_handle [OF this]
  show "gpio s' (ss_pin (g_mmc_cfg s'))" by (simp add: mmc_handle_def)
next
  assume r: "mmc_read tps rid raddr rbuf rlen rs = Some (rrc, rbuf', rs')"
  show "if rid = 0 then gpio rs' (ss_pin (g_mmc_cfg rs')) else rs' = rs"
  proof (cases "rid = 0")
    case True
    with r mmc_read_released [of tps raddr rbuf rlen rs rrc rbuf' rs'] mmc_read_cfg [OF r]
    show ?thesis by simp
  next
    case False
    with r show ?thesis by (simp add: mmc_read_bad_id)
  qed
next
  assume w: "mmc_write tps wid waddr wbuf wlen ws = Some (wrc, ws')"
  show "if wid = 0 then gpio ws' (ss_pin (g_mmc_cfg ws')) else ws' = ws"
  proof (cases "wid = 0")
    case True
    with w mmc_write_released [of tps waddr wbuf wlen ws wrc ws'] mmc_write_cfg [OF w]
    show ?thesis by simp
  next
    case False
    with w show ?thesis by (simp add: mmc_write_bad_id)
  qed
qed

theorem chip_select_released_on_return_witness:
  "(\<exists>rc s'. mmc_init 1000 0 0 5 (board (sim_card 0xC0)) = Some (rc, s')
             \<and> gpio s' (ss_pin (g_mmc_cfg s')))
   \<and> (\<exists>rc b s'. mmc_read 1000 0 100 (\<lambda>i. 0) 512 (board read_card) = Some (rc, b, s')
             \<and> gpio s' (ss_pin (g_mmc_cfg s')))
   \<and> (\<exists>rc s'. mmc_write 1000 0 0 (\<lambda>i. 0x5A) 512 (board (write_card 0xE5)) = Some (rc, s')
             \<and> gpio s' (ss_pin (g_mmc_cfg s')))
   \<and> mmc_read 1000 1 100 (\<lambda>i. 0) 512 (board read_card)
        = Some (MMC_DEVICE_ERROR, (\<lambda>i. 0), board read_card)"
proof -
  obtain si where i: "mmc_init 1000 0 0 5 (board (sim_card 0xC0)) = Some (MMC_OK, si)"
    using sim_init by blast
  obtain b sr where r: "mmc_read 1000 0 100 (\<lambda>i. 0) 512 (board read_card) = Some (MMC_OK, b, sr)"
    using read_card_run_512 [of "\<lambda>i. 0"] by blast
  obtain sw where w: "mmc_write 1000 0 0 (\<lambda>i. 0x5A) 512 (board (write_card 0xE5)) = Some (MMC_OK, sw)"
    using write_card_run [of "\<lambda>i. 0x5A" "0xE5"] by auto
  have bad: "mmc_read 1000 1 100 (\<lambda>i. 0) 512 (board read_card)
               = Some (MMC_DEVICE_ERROR, (\<lambda>i. 0), board read_card)"
    by (simp add: mmc_read_bad_id)
  from chip_select_released_on_return
         [of 1000 0 0 5 "board (sim_card 0xC0)" MMC_OK si
             0 100 "\<lambda>i. 0" 512 "board read_card" MMC_OK b sr
             0 0 "\<lambda>i. 0x5A" 512 "board (write_card 0xE5)" MMC_OK sw]
       i r w bad
  show ?thesis by simp
qed

text \<open>
  C4: the error classifier maps \<open>0x00\<close> to success, every byte with the idle flag set to
  \<open>MMC_TIMEOUT\<close>, \<open>0x08\<close> to \<open>MMC_CRC_ERROR\<close>, \<open>0x40\<close> to \<open>MMC_PARAM_ERROR\<close>, and every
  non-zero byte whose set flags are all among erase-reset, illegal-command, erase-error
  and address-error to \<open>MMC_CARD_ERROR\<close>.
\<close>

theorem mmc_error_by_status_classes:
  "mmc_error_by_status 0x00 = MMC_OK
   \<and> (idle AND 0x01 \<noteq> 0 \<longrightarrow> mmc_error_by_status idle = MMC_TIMEOUT)
   \<and> mmc_error_by_status 0x08 = MMC_CRC_ERROR
   \<and> mmc_error_by_status 0x40 = MMC_PARAM_ERROR
   \<and> (other \<noteq> 0 \<and> other AND NOT (0x02 OR 0x04 OR 0x10 OR 0x20) = 0
        \<longrightarrow> mmc_error_by_status other = MMC_CARD_ERROR)"
proof -
  have masked: "other AND m = 0"
    if "other AND NOT (0x02 OR 0x04 OR 0x10 OR 0x20) = 0"
      and "m AND NOT (0x02 OR 0x04 OR 0x10 OR 0x20) = m" for m :: u8
  proof -
    have "other AND m = other AND (m AND NOT (0x02 OR 0x04 OR 0x10 OR 0x20))"
      using that(2) by simp
    also have "\<dots> = (other AND NOT (0x02 OR 0x04 OR 0x10 OR 0x20)) AND m"
      by (simp add: ac_simps)
    finally show ?thesis using that(1) by simp
  qed
  have "mmc_error_by_status 0x00 = MMC_OK"
    by (simp add: mmc_error_by_status_def)
  moreover have "idle AND 0x01 \<noteq> 0 \<longrightarrow> mmc_error_by_status idle = MMC_TIMEOUT"
    by (auto simp: mmc_error_by_status_def r1_defs)
  moreover have "mmc_error_by_status 0x08 = MMC_CRC_ERROR"
    by (simp add: mmc_error_by_status_def r1_defs)
  moreover have "mmc_error_by_status 0x40 = MMC_PARAM_ERROR"
    by (simp add: mmc_error_by_status_def r1_defs)
  moreover have "other \<noteq> 0 \<and> other AND NOT (0x02 OR 0x04 OR 0x10 OR 0x20) = 0
        \<longrightarrow> mmc_error_by_status other = MMC_CARD_ERROR"
    using masked [of 1] masked [of 8] masked [of "0x40"]
    by (simp add: mmc_error_by_status_def r1_defs)
  ultimately show ?thesis by blast
qed

theorem mmc_error_by_status_classes_witness:
  "(0x81::u8) AND 0x01 \<noteq> 0 \<and> mmc_error_by_status 0x81 = MMC_TIMEOUT
   \<and> (0x24::u8) \<noteq> 0 \<and> (0x24::u8) AND NOT (0x02 OR 0x04 OR 0x10 OR 0x20) = 0
   \<and> mmc_error_by_status 0x24 = MMC_CARD_ERROR"
  using mmc_error_by_status_classes [of "0x81" "0x24"] by simp

text \<open>
  C5: a \<open>mmc_write\<close> that returns anything but \<open>MMC_DEVICE_ERROR\<close> (invalid slot) or
  \<open>MMC_CARD_ERROR\<close> (a command or the pre-read failed before the loop) has run the
  per-block loop. The loop starts in the state \<open>s0\<close> the call has reached (chip-select
  asserted and, for an unaligned address, the block pre-read), after the write command
  \<open>cmd\<close> was answered with 0 (state \<open>s1\<close>) and one gap byte was sent. It sends the blocks
  \<open>bs\<close>, at least one, each a start token, 512 data bytes, two CRC bytes and the \<open>0xFF\<close>
  that clocks the data-response token in, and ends in state \<open>s3\<close>; the token of every
  block but the last was an acceptance. The result of the call is read from the low
  five bits of the byte the card answered in the last exchange of the loop, the
  data-response token of the last block sent: \<open>0b00101\<close> is \<open>MMC_OK\<close>, \<open>0b01011\<close> is
  \<open>MMC_CRC_ERROR\<close>, every other value \<open>MMC_WRITE_ERROR\<close>. The wait for the card to stop
  being busy, which follows, does not change it.
\<close>

theorem mmc_write_status_from_last_token:
  assumes "mmc_write tps mmc_id addr buf len s = Some (rc, s')"
    and "rc \<noteq> MMC_DEVICE_ERROR" and "rc \<noteq> MMC_CARD_ERROR"
  shows "\<exists>cmd s0 s1 bs s3 busy s4.
      cmd = (if ((len + BLOCK_LEN - 1) AND NOT (BLOCK_LEN - 1)) div BLOCK_LEN = 1
             then CMD24 else CMD25)
    \<and> (if addr - addr div BLOCK_LEN * BLOCK_LEN = 0
       then s0 = hal_gpio_write (ss_pin (g_mmc_cfg s)) False s
       else \<exists>r1 r2.
              send_mmc_cmd CMD17 (addr div BLOCK_LEN)
                (hal_gpio_write (ss_pin (g_mmc_cfg s)) False s) = (0, r1)
              \<and> wait_token tps (os_time r1 + of_nat (tps div 5)) r1 = Some (0xFE, r2)
              \<and> s0 = block_read r2)
    \<and> send_mmc_cmd cmd (addr div BLOCK_LEN) s0 = (0, s1)
    \<and> snd (write_blocks cmd (addr - addr div BLOCK_LEN * BLOCK_LEN) len 0 buf
              (snd (hal_spi_tx_val 0xff s1))) = s3
    \<and> bs \<noteq> [] \<and> list_all (data_block cmd) bs
    \<and> mosi s3 = mosi s1 @ 0xff # concat bs
    \<and> list_all (\<lambda>k. miso s (length (mosi s1) + 516 * k) AND 0x1f = 0x05) [1..<length bs]
    \<and> rc = (if miso s (length (mosi s3) - 1) AND 0x1f = 0x05 then MMC_OK
             else if miso s (length (mosi s3) - 1) AND 0x1f = 0x0b then MMC_CRC_ERROR
             else MMC_WRITE_ERROR)
    \<and> wait_not_busy tps (os_time s3 + of_nat (5 * tps)) s3 = Some (busy, s4)
    \<and> s' = hal_gpio_write (ss_pin (g_mmc_cfg s)) True s4"
proof -
  let ?bc = "((len + BLOCK_LEN - 1) AND NOT (BLOCK_LEN - 1)) div BLOCK_LEN"
  let ?cmd = "if ?bc = 1 then CMD24 else CMD25"
  let ?ba = "addr div BLOCK_LEN"
  let ?off = "addr - addr div BLOCK_LEN * BLOCK_LEN"
  let ?pin = "ss_pin (g_mmc_cfg s)"
  from mmc_write_enters_loop [OF assms] obtain s0 where
    entry: "if ?off = 0 then s0 = hal_gpio_write ?pin False s
       else \<exists>r1 r2. send_mmc_cmd CMD17 ?ba (hal_gpio_write ?pin False s) = (0, r1)
              \<and> wait_token tps (os_time r1 + of_nat (tps div 5)) r1 = Some (0xFE, r2)
              \<and> s0 = block_read r2"
    and m0: "miso s0 = miso s"
    and data: "mmc_write_data tps (g_mmc_cfg s) ?bc ?ba ?off buf len s0 = Some (rc, s')"
    by blast
  obtain res s1 where c: "send_mmc_cmd ?cmd ?ba s0 = (res, s1)"
    by (cases "send_mmc_cmd ?cmd ?ba s0")
  from data c assms(3) have res: "res = 0"
    unfolding mmc_write_data_def Let_def by (auto split: if_splits)
  have m1: "miso s1 = miso s"
    using send_mmc_cmd_sent [of ?cmd ?ba s0] c m0 by auto
  let ?s2 = "sent [0xff] s1"
  from write_blocks_trace [of ?cmd ?off len 0 buf ?s2] obtain bs s3 where tr:
    "write_blocks ?cmd ?off len 0 buf ?s2
       = (miso ?s2 (length (mosi ?s2) + 516 * length bs - 1), s3)"
    "bs \<noteq> []" "list_all (data_block ?cmd) bs"
    "mosi s3 = mosi ?s2 @ concat bs"
    "list_all (\<lambda>k. miso ?s2 (length (mosi ?s2) + 516 * k - 1) AND 0x1f = 0x05) [1..<length bs]"
    by blast
  have len3: "length (mosi s3) = length (mosi s1) + 1 + 516 * length bs"
  proof -
    have "length (concat bs) = 516 * length bs"
      using tr(3) by (induction bs) (simp_all add: data_block_def)
    with tr(4) show ?thesis by simp
  qed
  have tok: "miso ?s2 (length (mosi ?s2) + 516 * length bs - 1) = miso s (length (mosi s3) - 1)"
    using len3 m1 by simp
  have earlier: "list_all (\<lambda>k. miso s (length (mosi s1) + 516 * k) AND 0x1f = 0x05)
                   [1..<length bs]"
    using tr(5) m1 by (simp add: list_all_iff)
  from data c res tr(1) obtain busy s4 where
    nb: "wait_not_busy tps (os_time s3 + of_nat (5 * tps)) s3 = Some (busy, s4)"
    and fin: "rc = write_status (miso s (length (mosi s3) - 1))"
      "s' = hal_gpio_write ?pin True s4"
    unfolding mmc_write_data_def Let_def os_time_get_def tok
    by (auto simp: hal_spi_tx_val_eq split: option.splits)
  have wire: "mosi s3 = mosi s1 @ 0xff # concat bs"
    using tr(4) by simp
  have s3: "snd (write_blocks ?cmd ?off len 0 buf (snd (hal_spi_tx_val 0xff s1))) = s3"
    using tr(1) by (simp add: hal_spi_tx_val_eq)
  from entry c [unfolded res] s3 tr(2,3) wire earlier fin [unfolded write_status_def] nb
  show ?thesis by blast
qed

theorem mmc_write_status_from_last_token_witness:
  "(\<exists>s' s1 s3.
      mmc_write 1000 0 0 (\<lambda>i. 0x5A) 512 (board (write_card 0xE5)) = Some (MMC_OK, s')
      \<and> send_mmc_cmd CMD24 0 (hal_gpio_write 0 False (board (write_card 0xE5))) = (0, s1)
      \<and> snd (write_blocks CMD24 0 512 0 (\<lambda>i. 0x5A) (snd (hal_spi_tx_val 0xff s1))) = s3
      \<and> write_card 0xE5 (length (mosi s3) - 1) AND 0x1f = 0x05)
   \<and> (\<exists>s' s1 s3.
      mmc_write 1000 0 0 (\<lambda>i. 0x5A) 512 (board (write_card 0xEB)) = Some (MMC_CRC_ERROR, s')
      \<and> send_mmc_cmd CMD24 0 (hal_gpio_write 0 False (board (write_card 0xEB))) = (0, s1)
      \<and> snd (write_blocks CMD24 0 512 0 (\<lambda>i. 0x5A) (snd (hal_spi_tx_val 0xff s1))) = s3
      \<and> write_card 0xEB (length (mosi s3) - 1) AND 0x1f = 0x0b)
   \<and> (\<exists>s' s1 s3.
      mmc_write 1000 0 0 (\<lambda>i. 0x5A) 512 (board (write_card 0xED)) = Some (MMC_WRITE_ERROR, s')
      \<and> send_mmc_cmd CMD24 0 (hal_gpio_write 0 False (board (write_card 0xED))) = (0, s1)
      \<and> snd (write_blocks CMD24 0 512 0 (\<lambda>i. 0x5A) (snd (hal_spi_tx_val 0xff s1))) = s3
      \<and> write_card 0xED (length (mosi s3) - 1) AND 0x1f \<noteq> 0x05
      \<and> write_card 0xED (length (mosi s3) - 1) AND 0x1f \<noteq> 0x0b)"
proof -
  have cnt: "((512::size_t) + BLOCK_LEN - 1 AND NOT (BLOCK_LEN - 1)) div BLOCK_LEN = 1"
    by (simp add: BLOCK_LEN_def)
  have off: "(0::u32) - 0 div BLOCK_LEN * BLOCK_LEN = 0" and ba: "(0::u32) div BLOCK_LEN = 0"
    by simp_all
  have gen: "\<exists>s' s1 s3.
      mmc_write 1000 0 0 (\<lambda>i. 0x5A) 512 (board (write_card tok)) = Some (write_status tok, s')
      \<and> send_mmc_cmd CMD24 0 (hal_gpio_write 0 False (board (write_card tok))) = (0, s1)
      \<and> snd (write_blocks CMD24 0 512 0 (\<lambda>i. 0x5A) (snd (hal_spi_tx_val 0xff s1))) = s3
      \<and> write_status tok =
          (if write_card tok (length (mosi s3) - 1) AND 0x1f = 0x05 then MMC_OK
           else if write_card tok (length (mosi s3) - 1) AND 0x1f = 0x0b then MMC_CRC_ERROR
           else MMC_WRITE_ERROR)"
    if ok: "write_status tok \<noteq> MMC_DEVICE_ERROR" "write_status tok \<noteq> MMC_CARD_ERROR" for tok
  proof -
    obtain s' where run:
      "mmc_write 1000 0 0 (\<lambda>i. 0x5A) 512 (board (write_card tok)) = Some (write_status tok, s')"
      using write_card_run by blast
    from mmc_write_status_from_last_token [OF run ok]
    show ?thesis
    proof (elim exE conjE)
      fix cmd s0 s1 s3
      assume c: "cmd = (if ((512::size_t) + BLOCK_LEN - 1 AND NOT (BLOCK_LEN - 1)) div BLOCK_LEN = 1
                        then CMD24 else CMD25)"
        and e: "if (0::u32) - 0 div BLOCK_LEN * BLOCK_LEN = 0
                then s0 = hal_gpio_write (ss_pin (g_mmc_cfg (board (write_card tok)))) False
                            (board (write_card tok))
                else \<exists>r1 r2.
                       send_mmc_cmd CMD17 (0 div BLOCK_LEN)
                         (hal_gpio_write (ss_pin (g_mmc_cfg (board (write_card tok)))) False
                            (board (write_card tok))) = (0, r1)
                       \<and> wait_token 1000 (os_time r1 + of_nat (1000 div 5)) r1 = Some (0xFE, r2)
                       \<and> s0 = block_read r2"
        and sm: "send_mmc_cmd cmd (0 div BLOCK_LEN) s0 = (0, s1)"
        and wb: "snd (write_blocks cmd (0 - 0 div BLOCK_LEN * BLOCK_LEN) 512 0 (\<lambda>i. 0x5A)
                        (snd (hal_spi_tx_val 0xff s1))) = s3"
        and cls: "write_status tok =
                    (if miso (board (write_card tok)) (length (mosi s3) - 1) AND 0x1f = 0x05
                     then MMC_OK
                     else if miso (board (write_card tok)) (length (mosi s3) - 1) AND 0x1f = 0x0b
                     then MMC_CRC_ERROR
                     else MMC_WRITE_ERROR)"
      have c': "cmd = CMD24" using c unfolding cnt by simp
      have e': "s0 = hal_gpio_write 0 False (board (write_card tok))" using e by simp
      from sm have sm': "send_mmc_cmd CMD24 0 (hal_gpio_write 0 False (board (write_card tok)))
                           = (0, s1)"
        unfolding c' e' by simp
      from wb have wb': "snd (write_blocks CMD24 0 512 0 (\<lambda>i. 0x5A)
                                (snd (hal_spi_tx_val 0xff s1))) = s3"
        unfolding c' by simp
      from cls have cls': "write_status tok =
                    (if write_card tok (length (mosi s3) - 1) AND 0x1f = 0x05 then MMC_OK
                     else if write_card tok (length (mosi s3) - 1) AND 0x1f = 0x0b
                     then MMC_CRC_ERROR
                     else MMC_WRITE_ERROR)"
        by (simp only: board_fields)
      from run sm' wb' cls' show ?thesis by blast
    qed
  qed
  have 1: "write_status 0xE5 \<noteq> MMC_DEVICE_ERROR" "write_status 0xE5 \<noteq> MMC_CARD_ERROR"
    and 2: "write_status 0xEB \<noteq> MMC_DEVICE_ERROR" "write_status 0xEB \<noteq> MMC_CARD_ERROR"
    and 3: "write_status 0xED \<noteq> MMC_DEVICE_ERROR" "write_status 0xED \<noteq> MMC_CARD_ERROR"
    by simp_all
  from gen [OF 1] have a: "\<exists>s' s1 s3.
      mmc_write 1000 0 0 (\<lambda>i. 0x5A) 512 (board (write_card 0xE5)) = Some (MMC_OK, s')
      \<and> send_mmc_cmd CMD24 0 (hal_gpio_write 0 False (board (write_card 0xE5))) = (0, s1)
      \<and> snd (write_blocks CMD24 0 512 0 (\<lambda>i. 0x5A) (snd (hal_spi_tx_val 0xff s1))) = s3
      \<and> write_card 0xE5 (length (mosi s3) - 1) AND 0x1f = 0x05"
    by (auto split: if_splits)
  from gen [OF 2] have b: "\<exists>s' s1 s3.
      mmc_write 1000 0 0 (\<lambda>i. 0x5A) 512 (board (write_card 0xEB)) = Some (MMC_CRC_ERROR, s')
      \<and> send_mmc_cmd CMD24 0 (hal_gpio_write 0 False (board (write_card 0xEB))) = (0, s1)
      \<and> snd (write_blocks CMD24 0 512 0 (\<lambda>i. 0x5A) (snd (hal_spi_tx_val 0xff s1))) = s3
      \<and> write_card 0xEB (length (mosi s3) - 1) AND 0x1f = 0x0b"
    by (auto split: if_splits)
  from gen [OF 3] have c: "\<exists>s' s1 s3.
      mmc_write 1000 0 0 (\<lambda>i. 0x5A) 512 (board (write_card 0xED)) = Some (MMC_WRITE_ERROR, s')
      \<and> send_mmc_cmd CMD24 0 (hal_gpio_write 0 False (board (write_card 0xED))) = (0, s1)
      \<and> snd (write_blocks CMD24 0 512 0 (\<lambda>i. 0x5A) (snd (hal_spi_tx_val 0xff s1))) = s3
      \<and> write_card 0xED (length (mosi s3) - 1) AND 0x1f \<noteq> 0x05
      \<and> write_card 0xED (length (mosi s3) - 1) AND 0x1f \<noteq> 0x0b"
    by (auto split: if_splits)
  from a b c show ?thesis by (intro conjI)
qed

text \<open>
  C6: \<open>mmc_read\<close> of 600 bytes at address 100, when the card accepts the command and
  sends the start token. The command sent is \<open>CMD18\<close> with argument 0. After the
  token (state \<open>s2\<close>) the driver clocks 514 bytes twice (512 data bytes and 2 CRC bytes
  each time), sends \<open>CMD12\<close>, and returns \<open>MMC_OK\<close>. The caller's buffer holds bytes
  100 to 511 of the first block at offsets 0 to 411 and bytes 0 to 187 of the second
  block at offsets 412 to 599; beyond 599 it is unchanged.
\<close>

theorem mmc_read_600_at_100:
  assumes cmd: "send_mmc_cmd CMD18 0 (hal_gpio_write (ss_pin (g_mmc_cfg s)) False s) = (0, s1)"
    and tok: "wait_token tps (os_time s1 + of_nat (tps div 5)) s1 = Some (0xFE, s2)"
  shows "\<exists>k s'. 1 \<le> k \<and> k \<le> 255
     \<and> mmc_read tps 0 100 buf 600 s =
         Some (MMC_OK,
               (\<lambda>i. if i < 412 then miso s2 (length (mosi s2) + 100 + i)
                    else if i < 600 then miso s2 (length (mosi s2) + 514 + (i - 412))
                    else buf i),
               s')
     \<and> mosi s' = mosi s2 @ replicate 514 0xff @ replicate 514 0xff
                   @ command_frame CMD12 0 @ replicate k 0xff
     \<and> miso s2 = miso s"
proof -
  let ?n = "length (mosi s2)"
  let ?buf' = "\<lambda>i. if i < 412 then miso s2 (?n + 100 + i)
                    else if i < 600 then miso s2 (?n + 514 + (i - 412))
                    else buf i"
  let ?s3 = "block_read (block_read s2)"
  have blocks: "read_blocks 2 100 600 0 buf s2 = (?buf', ?s3)"
  proof -
    have one: "read_blocks 2 100 600 0 buf s2 =
                 read_blocks 1 0 188 412
                   (memcpy buf 0 (g_block_buf (block_read s2)) 100 412) (block_read s2)"
      by (subst read_blocks_step) (simp_all add: BLOCK_LEN_def)
    have two: "read_blocks 1 0 188 412 b (block_read s2) =
                 (memcpy b 412 (g_block_buf ?s3) 0 188, ?s3)" for b
      by (subst read_blocks_step) (simp_all add: BLOCK_LEN_def read_blocks_0)
    have "memcpy (memcpy buf 0 (g_block_buf (block_read s2)) 100 412) 412
            (g_block_buf ?s3) 0 188 = ?buf'"
      by (auto simp: memcpy_def fun_eq_iff add.assoc)
    with one two show ?thesis by simp
  qed
  obtain k where k: "1 \<le> k" "k \<le> 255"
    "snd (send_mmc_cmd CMD12 0 ?s3) = sent (command_frame CMD12 0 @ replicate k 0xff) ?s3"
    using send_mmc_cmd_plain_wire [of CMD12 0 ?s3] by (auto simp: CMD12_def)
  let ?s' = "hal_gpio_write (ss_pin (g_mmc_cfg s)) True
               (sent (command_frame CMD12 0 @ replicate k 0xff) ?s3)"
  have run: "mmc_read tps 0 100 buf 600 s = Some (MMC_OK, ?buf', ?s')"
    unfolding mmc_read_def mmc_cfg_dev_def Let_def
    by (simp add: BLOCK_LEN_def cmd_defs cmd [unfolded cmd_defs] tok os_time_get_def
          blocks k(3) [unfolded cmd_defs])
  have wire: "mosi ?s' = mosi s2 @ replicate 514 0xff @ replicate 514 0xff
                   @ command_frame CMD12 0 @ replicate k 0xff"
    by simp
  have "miso s1 = miso s"
    using send_mmc_cmd_sent [of CMD18 0 "hal_gpio_write (ss_pin (g_mmc_cfg s)) False s"] cmd
    by auto
  moreover have "miso s2 = miso s1"
    using wait_token_result [OF tok] by auto
  ultimately have "miso s2 = miso s" by simp
  with run wire k(1,2) show ?thesis by blast
qed

theorem mmc_read_600_at_100_witness:
  "\<exists>s'. mmc_read 1000 0 100 (\<lambda>i. 0) 600 (board read_card)
          = Some (MMC_OK,
                  (\<lambda>i. if i < 412 then of_nat (108 + i)
                       else if i < 600 then of_nat (110 + i) else 0),
                  s')"
proof -
  let ?s0 = "hal_gpio_write 0 False (board read_card)"
  let ?s1 = "sent (command_frame CMD18 0 @ [0xff]) ?s0"
  let ?s2 = "sent [0xff] ?s1"
  have cmd: "send_mmc_cmd CMD18 0 (hal_gpio_write (ss_pin (g_mmc_cfg (board read_card))) False
               (board read_card)) = (0, ?s1)"
    using read_card_cmd [of CMD18] by (simp add: CMD18_def)
  have tok: "wait_token 1000 (os_time ?s1 + of_nat (1000 div 5)) ?s1 = Some (0xFE, ?s2)"
    by (rule read_card_token)
  have data: "(\<lambda>i. if i < 412 then miso ?s2 (length (mosi ?s2) + 100 + i)
                    else if i < 600 then miso ?s2 (length (mosi ?s2) + 514 + (i - 412))
                    else (0::u8))
              = (\<lambda>i. if i < 412 then of_nat (108 + i)
                       else if i < 600 then of_nat (110 + i) else 0)"
    by (auto simp: fun_eq_iff read_card_def)
  from mmc_read_600_at_100 [OF cmd tok, of "\<lambda>i. 0"]
  show ?thesis unfolding data by blast
qed

text \<open>
  C7: the bytes \<open>send_mmc_cmd\<close> puts on the bus are, for a command with the
  application-command marker, the whole \<open>CMD55\<close> frame and the \<open>0xFF\<close> bytes that clock
  its response in (between 1 and 255 of them), and then in every case the frame of the
  command itself, followed by the \<open>0xFF\<close> bytes that clock the response in. The status
  returned is the byte answered in the last exchange, so the answer to \<open>CMD55\<close> is
  dropped.
\<close>

theorem send_mmc_cmd_wire_bytes:
  "\<exists>k55 k. 1 \<le> k55 \<and> k55 \<le> 255 \<and> 1 \<le> k \<and> k \<le> 255 \<and>
     mosi (snd (send_mmc_cmd cmd arg s)) =
       mosi s
       @ (if cmd AND 0x80 \<noteq> 0 then command_frame CMD55 0 @ replicate k55 0xff else [])
       @ command_frame cmd arg @ replicate k 0xff
     \<and> fst (send_mmc_cmd cmd arg s) = miso s (length (mosi (snd (send_mmc_cmd cmd arg s))) - 1)"
proof -
  obtain k55 k where k: "1 \<le> k55" "k55 \<le> 255" "1 \<le> k" "k \<le> 255"
    "send_mmc_cmd cmd arg s =
       (miso s (length (mosi s) + (if cmd AND 0x80 \<noteq> 0 then 6 + k55 else 0) + 6 + k - 1),
        sent ((if cmd AND 0x80 \<noteq> 0 then command_frame CMD55 0 @ replicate k55 0xff else [])
              @ command_frame cmd arg @ replicate k 0xff) s)"
    using send_mmc_cmd_result [of cmd arg s] by blast
  have len: "length (command_frame c q) = 6" for c q
    by (simp add: command_frame_def)
  show ?thesis
    apply (rule exI [of _ k55], rule exI [of _ k])
    using k(1-4) by (simp add: k(5) len add.assoc)
qed

text \<open>
  C8 fails on the code when the tick counter is about to wrap. \<open>mmc_init\<close> is called at
  tick 4294966285 with 1000 ticks per second, on a card that echoes \<open>CMD8\<close> and then
  never leaves the idle state. After the sleep of 10 ticks the deadline is computed as
  4294966295 + 1000 = \<open>0xFFFFFFFF\<close>; \<open>os_time_get() > timeout\<close> holds for no value of the
  counter, which wraps to 0 after \<open>0xFFFFFFFF\<close>, and the idle flag is never clear, so the
  loop has no exit: \<open>mmc_init\<close> does not return.
\<close>

theorem mmc_init_idle_at_wrap_never_returns:
  "mmc_init 1000 0 0 5 (board_at 4294966285 idle_card) = None"
proof -
  let ?s = "board_at 4294966285 idle_card"
  let ?s3 = "sent (command_frame CMD0 0 @ [0xff] @ command_frame CMD8 0x1AA @ [0xff]
                     @ replicate 4 0xff)
               (mmc_init_powered 1000 0 0 5 ?s)"
  have neg: "mmc_init_negotiates 1000 0 0 5 ?s [1, 1, 1, 0xAA] ?s3"
    using negotiates_eval [of ?s 1000 0 0 5]
    by (simp add: idle_card_def)
  have deadline: "os_time ?s3 + of_nat 1000 = - 1"
    by simp
  have stuck: "\<forall>n \<ge> length (mosi ?s3). miso ?s3 n AND R_IDLE \<noteq> 0"
    by (simp add: idle_card_def R_IDLE_def)
  show ?thesis
    by (rule mmc_init_deadline_never_passed [OF neg deadline stuck])
qed

text \<open>
  C9: whenever \<open>mmc_read\<close> returns an error, the caller's buffer is as it was.
\<close>

theorem mmc_read_error_keeps_buffer:
  "mmc_read tps mmc_id addr buf len s = Some (rc, buf', s') \<Longrightarrow> rc \<noteq> MMC_OK \<Longrightarrow> buf' = buf"
  unfolding mmc_read_def Let_def
  by (auto split: prod.splits option.splits if_splits)

theorem mmc_read_error_keeps_buffer_witness:
  "\<exists>s'. mmc_read 1000 0 0 (\<lambda>i. 0x11) 512 (board idle_card)
          = Some (MMC_CARD_ERROR, (\<lambda>i. 0x11), s')"
proof -
  obtain b s' where run:
    "mmc_read 1000 0 0 (\<lambda>i. 0x11) 512 (board idle_card) = Some (MMC_CARD_ERROR, b, s')"
    using idle_card_read_rejected by blast
  have "MMC_CARD_ERROR \<noteq> MMC_OK" by simp
  from mmc_read_error_keeps_buffer [OF run this] run
  show ?thesis by blast
qed

text \<open>
  C10: \<open>mmc_write\<close> of 0 bytes at a block-aligned address, when the card accepts the
  command (with at least 100 ticks per second, and the tick counter more than five
  seconds and one sleep away from its wrap, so that the wait for the card ends).
  The command is \<open>CMD25\<close>; after its response the driver sends the gap byte, the
  multi-block start token \<open>0xFC\<close>, the 512 bytes the scratch buffer held when the call
  began, two CRC bytes \<open>0xFF\<close> and one \<open>0xFF\<close> that reads the data-response token, the
  byte the card answers in exchange 516 after the response. The call returns
  \<open>MMC_OK\<close> when the low five bits of that token are \<open>0b00101\<close>, \<open>MMC_CRC_ERROR\<close> when
  they are \<open>0b01011\<close>, and \<open>MMC_WRITE_ERROR\<close> for every other value.
\<close>

theorem mmc_write_len_0_sends_block:
  assumes tps: "100 \<le> tps"
    and nowrap: "unat (os_time s) + 5 * tps + tps div 100 < 2 ^ 32"
    and aligned: "addr mod BLOCK_LEN = 0"
    and cmd: "send_mmc_cmd CMD25 (addr div BLOCK_LEN)
                (hal_gpio_write (ss_pin (g_mmc_cfg s)) False s) = (0, s1)"
  shows "\<exists>j busy s4. 1 \<le> j
     \<and> wait_not_busy tps (os_time s1 + of_nat (5 * tps))
           (sent (0xff # 0xFC # map (g_block_buf s) [0..<512] @ [0xff, 0xff, 0xff]) s1)
         = Some (busy, s4)
     \<and> mmc_write tps 0 addr buf 0 s =
         Some (if miso s1 (length (mosi s1) + 516) AND 0x1f = 0x05 then MMC_OK
               else if miso s1 (length (mosi s1) + 516) AND 0x1f = 0x0b then MMC_CRC_ERROR
               else MMC_WRITE_ERROR,
               hal_gpio_write (ss_pin (g_mmc_cfg s)) True s4)
     \<and> mosi s4 = mosi s1 @ 0xff # 0xFC # map (g_block_buf s) [0..<512] @ [0xff, 0xff, 0xff]
                   @ replicate j 0xff
     \<and> miso s1 = miso s"
proof -
  let ?pin = "ss_pin (g_mmc_cfg s)"
  let ?s3 = "sent (0xff # 0xFC # map (g_block_buf s) [0..<512] @ [0xff, 0xff, 0xff]) s1"
  let ?tmo = "os_time s1 + of_nat (5 * tps)"
  have off: "addr - addr div BLOCK_LEN * BLOCK_LEN = 0"
    using aligned by (simp add: minus_div_mult_eq_mod)
  have frame: "g_block_buf s1 = g_block_buf s" "os_time s1 = os_time s" "miso s1 = miso s"
    using send_mmc_cmd_sent [of CMD25 "addr div BLOCK_LEN" "hal_gpio_write ?pin False s"] cmd
    by auto
  have sent1: "block_sent CMD25 0 0 0 buf (sent [0xff] s1) = ?s3"
    by (intro hw.equality) (simp_all add: block_sent_def Let_def cmd_defs frame)
  have loop: "write_blocks CMD25 0 0 0 buf (sent [0xff] s1)
                = (miso s1 (length (mosi s1) + 516), ?s3)"
    by (subst write_blocks_step) (simp add: Let_def sent1 add.commute)
  have "unat ?tmo = unat (os_time s) + 5 * tps"
    unfolding frame(2) by (rule os_time_delay_unat) (use nowrap in simp)
  then have nw: "unat ?tmo + tps div 100 < 2 ^ 32"
    using nowrap by simp
  obtain busy s4 where nb: "wait_not_busy tps ?tmo ?s3 = Some (busy, s4)"
    using wait_not_busy_total [OF tps nw, of ?s3] by auto
  from wait_not_busy_result [OF nb] obtain j where j: "1 \<le> j"
    "mosi s4 = mosi ?s3 @ replicate j 0xff" by auto
  have cnt: "((0::size_t) + BLOCK_LEN - 1 AND NOT (BLOCK_LEN - 1)) div BLOCK_LEN = 0"
    by (simp add: BLOCK_LEN_def)
  have data: "mmc_write_data tps (g_mmc_cfg s) 0 (addr div BLOCK_LEN) 0 buf 0
                (hal_gpio_write ?pin False s)
              = Some (write_status (miso s1 (length (mosi s1) + 516)),
                      hal_gpio_write ?pin True s4)"
    unfolding mmc_write_data_def Let_def
    using nb by (simp add: cmd hal_spi_tx_val_eq loop os_time_get_def)
  have "mmc_write tps 0 addr buf 0 s =
         Some (write_status (miso s1 (length (mosi s1) + 516)), hal_gpio_write ?pin True s4)"
    unfolding mmc_write_def mmc_cfg_dev_def Let_def off cnt
    by (simp add: data)
  with nb j frame(3) show ?thesis unfolding write_status_def by auto
qed

theorem mmc_write_len_0_sends_block_witness:
  "(\<exists>s'. mmc_write 1000 0 0 (\<lambda>i. 0x5A) 0 (board (write_card 0xE5)) = Some (MMC_OK, s')
        \<and> take 521 (mosi s') = command_frame CMD25 0 @ [0xff, 0xff, 0xFC] @ replicate 512 0)
   \<and> (\<exists>s'. mmc_write 1000 0 0 (\<lambda>i. 0x5A) 0 (board (write_card 0xEB))
               = Some (MMC_CRC_ERROR, s')
        \<and> take 521 (mosi s') = command_frame CMD25 0 @ [0xff, 0xff, 0xFC] @ replicate 512 0)
   \<and> (\<exists>s'. mmc_write 1000 0 0 (\<lambda>i. 0x5A) 0 (board (write_card 0xED))
               = Some (MMC_WRITE_ERROR, s')
        \<and> take 521 (mosi s') = command_frame CMD25 0 @ [0xff, 0xff, 0xFC] @ replicate 512 0)"
proof -
  have gen: "\<exists>s'. mmc_write 1000 0 0 (\<lambda>i. 0x5A) 0 (board (write_card tok))
          = Some (if tok AND 0x1f = 0x05 then MMC_OK
                  else if tok AND 0x1f = 0x0b then MMC_CRC_ERROR else MMC_WRITE_ERROR, s')
        \<and> take 521 (mosi s') = command_frame CMD25 0 @ [0xff, 0xff, 0xFC] @ replicate 512 0"
    for tok
  proof -
    let ?b = "board (write_card tok)"
    let ?s0 = "hal_gpio_write 0 False ?b"
    let ?s1 = "sent (command_frame CMD25 0 @ [0xff]) ?s0"
    have tps: "(100::nat) \<le> 1000" by simp
    have nw: "unat (os_time ?b) + 5 * 1000 + 1000 div 100 < 2 ^ 32" by simp
    have al: "(0::u32) mod BLOCK_LEN = 0" by simp
    have cmd: "send_mmc_cmd CMD25 (0 div BLOCK_LEN)
                 (hal_gpio_write (ss_pin (g_mmc_cfg ?b)) False ?b) = (0, ?s1)"
      using write_card_cmd [of CMD25 tok] by (simp add: CMD25_def)
    have stale: "map (\<lambda>i. 0::u8) [0..<512] = replicate 512 0"
      by (intro nth_equalityI) simp_all
    from mmc_write_len_0_sends_block [OF tps nw al cmd, of "\<lambda>i. 0x5A"]
    obtain j busy s4 where r:
      "mmc_write 1000 0 0 (\<lambda>i. 0x5A) 0 ?b
         = Some (if miso ?s1 (length (mosi ?s1) + 516) AND 0x1f = 0x05 then MMC_OK
                 else if miso ?s1 (length (mosi ?s1) + 516) AND 0x1f = 0x0b then MMC_CRC_ERROR
                 else MMC_WRITE_ERROR,
                 hal_gpio_write (ss_pin (g_mmc_cfg ?b)) True s4)"
      "mosi s4 = mosi ?s1 @ 0xff # 0xFC # map (g_block_buf ?b) [0..<512]
                   @ [0xff, 0xff, 0xff] @ replicate j 0xff"
      by blast
    have tk: "miso ?s1 (length (mosi ?s1) + 516) = tok"
      by (simp add: write_card_def)
    show ?thesis
      apply (rule exI [where x = "hal_gpio_write (ss_pin (g_mmc_cfg ?b)) True s4"])
      unfolding r(1) tk
      by (simp add: r(2) stale)
  qed
  from gen [of "0xE5"] gen [of "0xEB"] gen [of "0xED"] show ?thesis by simp
qed

end
